theory Spec2Isabelle
  imports Complex_Main "HOL-Library.Product_Lexorder" "HOL-Library.Multiset"
begin

section \<open>Journaling service: data model\<close>

text \<open>
  The development embeds \<^verbatim>\<open>src/services/journaling.py\<close> (class \<^verbatim>\<open>JournalingService\<close>) together
  with the ORM model \<^verbatim>\<open>src/models/journal.py\<close>, \<^verbatim>\<open>src/models/base.py\<close> and the request schemas
  of \<^verbatim>\<open>src/schemas/journaling.py\<close>.

  The table \<^verbatim>\<open>journal_entries\<close> is a list of rows in storage (insertion) order. Every service
  method takes the table and returns its result together with the table after the commit.
  A raised exception is a value \<open>Inl err\<close>; the table is then left as it was.
  The values the service reads from its environment are explicit arguments: the identifier
  drawn by \<^verbatim>\<open>uuid.uuid4()\<close>, the clock read by \<^verbatim>\<open>func.now()\<close> and \<^verbatim>\<open>datetime.utcnow()\<close>.
  Where the behaviour belongs to the storage engine, the configured default
  (\<^verbatim>\<open>sqlite+aiosqlite\<close>, \<^verbatim>\<open>src/config.py\<close>) is followed and said so at the definition.
\<close>

datatype error = IntegrityError | MultipleResultsFound | OverflowError | TypeError

subsection \<open>Dates\<close>

text \<open>
  A \<^verbatim>\<open>datetime.date\<close> is the triple (year, month, day). Python compares two dates by comparing
  these triples, which is the lexicographic order on the product type. A timestamp
  (\<^verbatim>\<open>datetime.datetime\<close>) is only stored and compared, so it is a point on the integer line.
\<close>

type_synonym date = "int \<times> int \<times> int"
type_synonym datetime = int

definition MAXORDINAL :: int where
  "MAXORDINAL = 3652059"

definition DAYS_IN_MONTH :: "int list" where
  "DAYS_IN_MONTH = [-1, 31, 28, 31, 30, 31, 30, 31, 31, 30, 31, 30, 31]"

definition DAYS_BEFORE_MONTH :: "int list" where
  "DAYS_BEFORE_MONTH = [-1, 0, 31, 59, 90, 120, 151, 181, 212, 243, 273, 304, 334]"

definition is_leap :: "int \<Rightarrow> bool" where
  "is_leap year \<longleftrightarrow> year mod 4 = 0 \<and> (year mod 100 \<noteq> 0 \<or> year mod 400 = 0)"

definition days_before_year :: "int \<Rightarrow> int" where
  "days_before_year year = (let y = year - 1 in y * 365 + y div 4 - y div 100 + y div 400)"

definition days_in_month :: "int \<Rightarrow> int \<Rightarrow> int" where
  "days_in_month year month =
     (if month = 2 \<and> is_leap year then 29 else DAYS_IN_MONTH ! nat month)"

definition days_before_month :: "int \<Rightarrow> int \<Rightarrow> int" where
  "days_before_month year month =
     DAYS_BEFORE_MONTH ! nat month + (if month > 2 \<and> is_leap year then 1 else 0)"

text \<open>
  A \<^verbatim>\<open>date\<close> object always holds a month in 1..12 and a day of that month, in a year 1..9999;
  the constructor rejects anything else.
\<close>

definition valid_date :: "date \<Rightarrow> bool" where
  "valid_date d =
     (case d of (year, month, day) \<Rightarrow>
        1 \<le> year \<and> year \<le> 9999 \<and> 1 \<le> month \<and> month \<le> 12 \<and>
        1 \<le> day \<and> day \<le> days_in_month year month)"

definition ymd2ord :: "int \<Rightarrow> int \<Rightarrow> int \<Rightarrow> int" where
  "ymd2ord year month day = days_before_year year + days_before_month year month + day"

definition toordinal :: "date \<Rightarrow> int" where
  "toordinal d = (case d of (year, month, day) \<Rightarrow> ymd2ord year month day)"

definition ord2ymd :: "int \<Rightarrow> date" where
  "ord2ymd n0 =
     (let n = n0 - 1;
          n400 = n div 146097; n = n mod 146097;
          year = n400 * 400 + 1;
          n100 = n div 36524; n = n mod 36524;
          n4 = n div 1461; n = n mod 1461;
          n1 = n div 365; n = n mod 365;
          year = year + n100 * 100 + n4 * 4 + n1
      in if n1 = 4 \<or> n100 = 4 then (year - 1, 12, 31)
         else
           let leapyear = (n1 = 3 \<and> (n4 \<noteq> 24 \<or> n100 = 3));
               month = (n + 50) div 32;
               preceding = DAYS_BEFORE_MONTH ! nat month
                             + (if month > 2 \<and> leapyear then 1 else 0)
           in if preceding > n
              then let month = month - 1;
                       preceding = preceding
                         - (DAYS_IN_MONTH ! nat month + (if month = 2 \<and> leapyear then 1 else 0))
                   in (year, month, n - preceding + 1)
              else (year, month, n - preceding + 1))"

definition fromordinal :: "int \<Rightarrow> date" where
  "fromordinal n = ord2ymd n"

text \<open>\<^verbatim>\<open>date.__add__\<close> with a \<^verbatim>\<open>timedelta\<close> of the given number of days.\<close>

definition date_add_days :: "date \<Rightarrow> int \<Rightarrow> error + date" where
  "date_add_days d days =
     (let o1 = toordinal d + days
      in if 0 < o1 \<and> o1 \<le> MAXORDINAL then Inr (fromordinal o1) else Inl OverflowError)"

text \<open>\<^verbatim>\<open>d - timedelta(days=k)\<close> is \<^verbatim>\<open>d + timedelta(-k)\<close>.\<close>

definition date_sub_days :: "date \<Rightarrow> int \<Rightarrow> error + date" where
  "date_sub_days d days = date_add_days d (- days)"

text \<open>\<^verbatim>\<open>d.replace(day=1)\<close>.\<close>

definition replace_day1 :: "date \<Rightarrow> date" where
  "replace_day1 d = (case d of (year, month, day) \<Rightarrow> (year, month, 1))"

text \<open>\<^verbatim>\<open>str(d)\<close> is \<^verbatim>\<open>"%04d-%02d-%02d"\<close> of the three fields (all non-negative in a date).\<close>

fun decimal :: "nat \<Rightarrow> string" where
  "decimal n = (if n < 10 then [''0123456789'' ! n]
                else decimal (n div 10) @ [''0123456789'' ! (n mod 10)])"

definition zero_pad :: "nat \<Rightarrow> int \<Rightarrow> string" where
  "zero_pad w n = (let s = decimal (nat n) in replicate (w - length s) CHR ''0'' @ s)"

definition isoformat :: "date \<Rightarrow> string" where
  "isoformat d =
     (case d of (year, month, day) \<Rightarrow>
        zero_pad 4 year @ ''-'' @ zero_pad 2 month @ ''-'' @ zero_pad 2 day)"

subsection \<open>Rows and request schemas\<close>

text \<open>
  \<^verbatim>\<open>JournalEntryBase\<close> carries the six content fields; \<^verbatim>\<open>JournalEntryCreate\<close> adds nothing to
  it. The ORM row has the same six columns and the key, the owner and the two timestamps of
  \<^verbatim>\<open>BaseModel\<close>. The primary key column \<^verbatim>\<open>id\<close> is written \<open>id'\<close>.
\<close>

record JournalEntryBase =
  title :: string
  content :: string
  entry_date :: date
  mood_rating :: "int option"
  energy_level :: "int option"
  tags :: "string option"

type_synonym JournalEntryCreate = JournalEntryBase

record JournalEntry = JournalEntryBase +
  id' :: string
  user_id :: string
  created_at :: datetime
  updated_at :: datetime

type_synonym store = "JournalEntry list"

text \<open>
  A field of \<^verbatim>\<open>JournalEntryUpdate\<close> is either absent from the request (not in
  \<^verbatim>\<open>model_fields_set\<close>, so dropped by \<^verbatim>\<open>model_dump(exclude_unset=True)\<close>) or supplied, and a
  supplied value may be \<^verbatim>\<open>None\<close>, since every field is \<^verbatim>\<open>Optional\<close>.
\<close>

datatype 'a field = Unset | Supplied 'a

record JournalEntryUpdate =
  title_upd :: "string option field"
  content_upd :: "string option field"
  entry_date_upd :: "date option field"
  mood_rating_upd :: "int option field"
  energy_level_upd :: "int option field"
  tags_upd :: "string option field"

text \<open>The request body \<^verbatim>\<open>{}\<close>: no field supplied.\<close>

definition no_fields :: JournalEntryUpdate where
  "no_fields = \<lparr>title_upd = Unset, content_upd = Unset, entry_date_upd = Unset,
                 mood_rating_upd = Unset, energy_level_upd = Unset, tags_upd = Unset\<rparr>"

text \<open>The constraints the schemas declare with \<^verbatim>\<open>Field(...)\<close>.\<close>

definition valid_rating :: "int option \<Rightarrow> bool" where
  "valid_rating r = (case r of None \<Rightarrow> True | Some v \<Rightarrow> 1 \<le> v \<and> v \<le> 10)"

definition valid_tags :: "string option \<Rightarrow> bool" where
  "valid_tags t = (case t of None \<Rightarrow> True | Some s \<Rightarrow> length s \<le> 500)"

definition valid_base :: "'a JournalEntryBase_scheme \<Rightarrow> bool" where
  "valid_base e \<longleftrightarrow>
     1 \<le> length (title e) \<and> length (title e) \<le> 255 \<and> 1 \<le> length (content e) \<and>
     valid_date (entry_date e) \<and> valid_rating (mood_rating e) \<and>
     valid_rating (energy_level e) \<and> valid_tags (tags e)"

definition valid_field :: "('a \<Rightarrow> bool) \<Rightarrow> 'a option field \<Rightarrow> bool" where
  "valid_field P f = (case f of Supplied (Some v) \<Rightarrow> P v | _ \<Rightarrow> True)"

definition valid_update :: "JournalEntryUpdate \<Rightarrow> bool" where
  "valid_update d \<longleftrightarrow>
     valid_field (\<lambda>t. 1 \<le> length t \<and> length t \<le> 255) (title_upd d) \<and>
     valid_field (\<lambda>c. 1 \<le> length c) (content_upd d) \<and>
     valid_field valid_date (entry_date_upd d) \<and>
     valid_field (\<lambda>v. 1 \<le> v \<and> v \<le> 10) (mood_rating_upd d) \<and>
     valid_field (\<lambda>v. 1 \<le> v \<and> v \<le> 10) (energy_level_upd d) \<and>
     valid_field (\<lambda>s. length s \<le> 500) (tags_upd d)"

text \<open>The primary key is unique; every stored row went through the schemas.\<close>

definition primary_key :: "store \<Rightarrow> bool" where
  "primary_key db \<longleftrightarrow> distinct (map id' db)"

definition valid_store :: "store \<Rightarrow> bool" where
  "valid_store db \<longleftrightarrow> primary_key db \<and> list_all valid_base db"

section \<open>CRUD operations\<close>

text \<open>
  \<^verbatim>\<open>create_entry\<close>: the row is built from the owner and the dumped request, the key and both
  timestamps come from the column defaults. The insert violates the primary key when the
  drawn identifier is already in the table. (The default engine does not enforce the foreign
  key to \<^verbatim>\<open>users\<close>.)
\<close>

definition create_entry ::
  "store \<Rightarrow> string \<Rightarrow> datetime \<Rightarrow> string \<Rightarrow> JournalEntryCreate
     \<Rightarrow> error + (JournalEntry \<times> store)" where
  "create_entry db new_id now uid entry_data =
     (let db_entry = \<lparr>title = title entry_data, content = content entry_data,
                       entry_date = entry_date entry_data,
                       mood_rating = mood_rating entry_data,
                       energy_level = energy_level entry_data, tags = tags entry_data,
                       id' = new_id, user_id = uid, created_at = now, updated_at = now\<rparr>
      in if new_id \<in> set (map id' db) then Inl IntegrityError
         else Inr (db_entry, db @ [db_entry]))"

text \<open>
  \<^verbatim>\<open>get_entry\<close>: one query filtering on key and owner together;
  \<^verbatim>\<open>scalar_one_or_none()\<close> raises when more than one row comes back.
\<close>

definition get_entry :: "store \<Rightarrow> string \<Rightarrow> string \<Rightarrow> error + JournalEntry option" where
  "get_entry db uid eid =
     (case filter (\<lambda>r. id' r = eid \<and> user_id r = uid) db of
        [] \<Rightarrow> Inr None
      | [r] \<Rightarrow> Inr (Some r)
      | _ \<Rightarrow> Inl MultipleResultsFound)"

text \<open>
  The loop \<^verbatim>\<open>for field, value in update_dict.items(): setattr(entry, field, value)\<close> over the
  supplied fields. The columns \<^verbatim>\<open>title\<close>, \<^verbatim>\<open>content\<close> and \<^verbatim>\<open>entry_date\<close> are \<^verbatim>\<open>NOT NULL\<close>
  (\<^verbatim>\<open>Mapped[str]\<close>, \<^verbatim>\<open>Mapped[date]\<close>): a supplied \<^verbatim>\<open>None\<close> for one of them makes the commit fail.
\<close>

definition null_violation :: "JournalEntryUpdate \<Rightarrow> bool" where
  "null_violation d \<longleftrightarrow>
     title_upd d = Supplied None \<or> content_upd d = Supplied None \<or>
     entry_date_upd d = Supplied None"

definition setattr_required :: "'a option field \<Rightarrow> 'a \<Rightarrow> 'a" where
  "setattr_required f old = (case f of Supplied (Some v) \<Rightarrow> v | _ \<Rightarrow> old)"

definition setattr_nullable :: "'a option field \<Rightarrow> 'a option \<Rightarrow> 'a option" where
  "setattr_nullable f old = (case f of Supplied v \<Rightarrow> v | Unset \<Rightarrow> old)"

definition set_fields :: "JournalEntryUpdate \<Rightarrow> JournalEntry \<Rightarrow> JournalEntry" where
  "set_fields d e =
     e\<lparr>title := setattr_required (title_upd d) (title e),
       content := setattr_required (content_upd d) (content e),
       entry_date := setattr_required (entry_date_upd d) (entry_date e),
       mood_rating := setattr_nullable (mood_rating_upd d) (mood_rating e),
       energy_level := setattr_nullable (energy_level_upd d) (energy_level e),
       tags := setattr_nullable (tags_upd d) (tags e)\<rparr>"

text \<open>The \<^verbatim>\<open>UPDATE ... WHERE id = ?\<close> the commit flushes.\<close>

definition write_row :: "JournalEntry \<Rightarrow> store \<Rightarrow> store" where
  "write_row e db = map (\<lambda>r. if id' r = id' e then e else r) db"

definition update_entry ::
  "store \<Rightarrow> datetime \<Rightarrow> string \<Rightarrow> string \<Rightarrow> JournalEntryUpdate
     \<Rightarrow> error + (JournalEntry option \<times> store)" where
  "update_entry db utcnow uid eid update_data =
     (case get_entry db uid eid of
        Inl err \<Rightarrow> Inl err
      | Inr None \<Rightarrow> Inr (None, db)
      | Inr (Some entry) \<Rightarrow>
          if null_violation update_data then Inl IntegrityError
          else let entry1 = (set_fields update_data entry)\<lparr>updated_at := utcnow\<rparr>
               in Inr (Some entry1, write_row entry1 db))"

text \<open>\<^verbatim>\<open>delete_entry\<close>: the row found for (owner, key) is deleted by its key.\<close>

definition delete_entry :: "store \<Rightarrow> string \<Rightarrow> string \<Rightarrow> error + (bool \<times> store)" where
  "delete_entry db uid eid =
     (case get_entry db uid eid of
        Inl err \<Rightarrow> Inl err
      | Inr None \<Rightarrow> Inr (False, db)
      | Inr (Some entry) \<Rightarrow> Inr (True, filter (\<lambda>r. id' r \<noteq> id' entry) db))"

section \<open>Filtered, ordered and paginated listing\<close>

text \<open>
  \<^verbatim>\<open>LIKE\<close> as the default engine evaluates it, with no escape character: \<open>%\<close> stands for any
  run of characters, \<open>_\<close> for any one character, and every other pattern character is
  compared with the text ignoring the case of ASCII letters.
\<close>

definition ascii_lower :: "char \<Rightarrow> char" where
  "ascii_lower c =
     (let n = (of_char c :: nat) in if 65 \<le> n \<and> n \<le> 90 then char_of (n + 32) else c)"

definition like_char_eq :: "char \<Rightarrow> char \<Rightarrow> bool" where
  "like_char_eq a b \<longleftrightarrow> ascii_lower a = ascii_lower b"

fun like_match :: "string \<Rightarrow> string \<Rightarrow> bool" where
  "like_match [] [] = True"
| "like_match [] (c # cs) = False"
| "like_match (p # ps) [] = (p = CHR ''%'' \<and> like_match ps [])"
| "like_match (p # ps) (c # cs) =
     (if p = CHR ''%'' then like_match ps (c # cs) \<or> like_match (p # ps) cs
      else (p = CHR ''_'' \<or> like_char_eq p c) \<and> like_match ps cs)"

text \<open>\<^verbatim>\<open>column.like(pattern)\<close> on a nullable column: \<^verbatim>\<open>NULL LIKE ...\<close> selects nothing.\<close>

definition column_like :: "string \<Rightarrow> string option \<Rightarrow> bool" where
  "column_like pattern v = (case v of None \<Rightarrow> False | Some s \<Rightarrow> like_match pattern s)"

text \<open>
  \<^verbatim>\<open>ORDER BY entry_date DESC\<close>. SQL leaves the order of rows with equal keys open; the model
  keeps them in storage order (a stable sort).
\<close>

definition order_by_desc :: "('a \<Rightarrow> 'k::linorder) \<Rightarrow> 'a list \<Rightarrow> 'a list" where
  "order_by_desc f rows = rev (sort_key f (rev rows))"

text \<open>
  \<^verbatim>\<open>OFFSET\<close> and \<^verbatim>\<open>LIMIT\<close> of the default engine: a negative offset counts as zero, a negative
  limit as no limit. The service passes \<^verbatim>\<open>skip\<close> and \<^verbatim>\<open>limit\<close> on unchecked; the bounds
  \<open>skip \<ge> 0\<close> and \<open>1 \<le> limit \<le> 1000\<close> are declared by the router. Both values are bound
  as statement parameters, and the driver raises \<^verbatim>\<open>OverflowError\<close> for a Python integer that
  does not fit the engine's signed 64-bit \<^verbatim>\<open>INTEGER\<close>.
\<close>

definition fits_int64 :: "int \<Rightarrow> bool" where
  "fits_int64 v \<longleftrightarrow> - (2 ^ 63) \<le> v \<and> v < 2 ^ 63"

definition sql_offset :: "int \<Rightarrow> 'a list \<Rightarrow> 'a list" where
  "sql_offset skip rows = drop (nat skip) rows"

definition sql_limit :: "int \<Rightarrow> 'a list \<Rightarrow> 'a list" where
  "sql_limit limit rows = (if limit < 0 then rows else take (nat limit) rows)"

text \<open>
  \<^verbatim>\<open>get_user_entries\<close>. \<^verbatim>\<open>if from_date:\<close> and \<^verbatim>\<open>if to_date:\<close> test for \<^verbatim>\<open>None\<close> (a date is
  never falsy); \<^verbatim>\<open>if tags:\<close> is also false for the empty string.
\<close>

definition get_user_entries ::
  "store \<Rightarrow> string \<Rightarrow> int \<Rightarrow> int \<Rightarrow> date option \<Rightarrow> date option \<Rightarrow> string option
     \<Rightarrow> error + JournalEntry list" where
  "get_user_entries db uid skip limit from_date to_date tags_filter =
     (let query = filter (\<lambda>r. user_id r = uid) db;
          query = (case from_date of
                     None \<Rightarrow> query
                   | Some d \<Rightarrow> filter (\<lambda>r. entry_date r \<ge> d) query);
          query = (case to_date of
                     None \<Rightarrow> query
                   | Some d \<Rightarrow> filter (\<lambda>r. entry_date r \<le> d) query);
          query = (case tags_filter of
                     None \<Rightarrow> query
                   | Some t \<Rightarrow>
                       if t = [] then query
                       else filter (\<lambda>r. column_like (''%'' @ t @ ''%'') (tags r)) query);
          query = order_by_desc entry_date query
      in if fits_int64 skip \<and> fits_int64 limit
         then Inr (sql_limit limit (sql_offset skip query))
         else Inl OverflowError)"

section \<open>Statistics\<close>

subsection \<open>Floating point\<close>

text \<open>
  A Python \<^verbatim>\<open>float\<close> is an IEEE 754 double; a finite double is held here by its exact rational
  value. \<open>nearest_double\<close> rounds a rational to the double nearest to it (to the one with the
  even significand when two are equally near): the significand has 53 bits, so the value is
  scaled by the power of two that brings it into \<open>[2^52, 2^53)\<close>, rounded to an integer and
  scaled back. Overflow and subnormal numbers are left out: every value below lies
  between the smallest and the largest rating.
\<close>

type_synonym pyfloat = rat

fun bit_length :: "nat \<Rightarrow> nat" where
  "bit_length 0 = 0"
| "bit_length (Suc n) = Suc (bit_length (Suc n div 2))"

definition round_half_even :: "rat \<Rightarrow> int" where
  "round_half_even x =
     (let f = \<lfloor>x\<rfloor>; r = x - of_int f
      in if r < 1 / 2 then f else if r > 1 / 2 then f + 1
         else if even f then f else f + 1)"

text \<open>The integer \<open>e\<close> with \<open>2^e \<le> a < 2^(e+1)\<close>, for \<open>a > 0\<close>.\<close>

definition floor_log2 :: "rat \<Rightarrow> int" where
  "floor_log2 a =
     (case quotient_of a of (p, q) \<Rightarrow>
        let d = int (bit_length (nat p)) - int (bit_length (nat q))
        in if 2 powi d \<le> a then d else d - 1)"

definition nearest_double :: "rat \<Rightarrow> pyfloat" where
  "nearest_double q =
     (if q = 0 then 0
      else let a = \<bar>q\<bar>; e = floor_log2 a - 52;
               m = round_half_even (a / 2 powi e)
           in sgn q * of_int m * 2 powi e)"

text \<open>\<^verbatim>\<open>float(x)\<close> of a value that is a \<^verbatim>\<open>float\<close> already returns it.\<close>

definition py_float :: "pyfloat \<Rightarrow> pyfloat" where
  "py_float x = x"

text \<open>
  \<^verbatim>\<open>round(x, ndigits)\<close> on a \<^verbatim>\<open>float\<close>: the exact value of \<open>x\<close> is rounded to \<open>ndigits\<close> decimal
  places, ties to the even digit, and the decimal is converted back to the nearest double.
\<close>

definition py_round :: "pyfloat \<Rightarrow> nat \<Rightarrow> pyfloat" where
  "py_round x ndigits =
     nearest_double (of_int (round_half_even (x * 10 ^ ndigits)) / 10 ^ ndigits)"

subsection \<open>Aggregates\<close>

text \<open>
  \<^verbatim>\<open>func.avg\<close> over a column: \<^verbatim>\<open>NULL\<close>s are skipped, and the average of no value is \<^verbatim>\<open>NULL\<close>.
  The engine divides the sum by the count in double precision and the driver hands the
  result over as a \<^verbatim>\<open>float\<close> (the sum and the count of the ratings are exact in a double).
\<close>

definition mean :: "int list \<Rightarrow> rat" where
  "mean xs = of_int (sum_list xs) / of_int (int (length xs))"

definition sql_avg :: "int option list \<Rightarrow> pyfloat option" where
  "sql_avg vs =
     (let xs = List.map_filter (\<lambda>v. v) vs
      in if xs = [] then None else Some (nearest_double (mean xs)))"

text \<open>
  \<^verbatim>\<open>round(float(avg), 2) if avg else None\<close>: the test is false for \<^verbatim>\<open>None\<close> and for \<^verbatim>\<open>0.0\<close>.
\<close>

definition rounded_or_none :: "pyfloat option \<Rightarrow> pyfloat option" where
  "rounded_or_none avg =
     (case avg of None \<Rightarrow> None
      | Some x \<Rightarrow> if x = 0 then None else Some (py_round (py_float x) 2))"

text \<open>
  \<^verbatim>\<open>SELECT entry_date, avg(mood_rating) ... GROUP BY entry_date ORDER BY entry_date\<close>:
  one row per distinct date, ascending.
\<close>

definition group_avg_by_date :: "JournalEntry list \<Rightarrow> (date \<times> pyfloat option) list" where
  "group_avg_by_date rows =
     map (\<lambda>d. (d, sql_avg (map mood_rating (filter (\<lambda>r. entry_date r = d) rows))))
         (sort (remdups (map entry_date rows)))"

text \<open>
  The loop over \<^verbatim>\<open>trend_result.fetchall()\<close>; a point is the pair of its \<^verbatim>\<open>"date"\<close> and
  \<^verbatim>\<open>"mood"\<close> values. \<^verbatim>\<open>float(None)\<close> raises \<^verbatim>\<open>TypeError\<close>.
\<close>

fun build_trend :: "(date \<times> pyfloat option) list \<Rightarrow> error + (string \<times> pyfloat) list" where
  "build_trend [] = Inr []"
| "build_trend ((d, avg_mood) # rows) =
     (case avg_mood of
        None \<Rightarrow> Inl TypeError
      | Some x \<Rightarrow>
          (case build_trend rows of
             Inl err \<Rightarrow> Inl err
           | Inr points \<Rightarrow> Inr ((isoformat d, py_float x) # points)))"

record user_stats =
  total_entries :: int
  entries_this_month :: int
  average_mood_this_month :: "pyfloat option"
  average_energy_this_month :: "pyfloat option"
  most_used_tags :: "string list"
  mood_trend :: "(string \<times> pyfloat) list"

text \<open>
  \<^verbatim>\<open>get_user_stats\<close>; \<open>current_date\<close> is the value of \<^verbatim>\<open>datetime.utcnow().date()\<close>.
\<close>

definition get_user_stats :: "store \<Rightarrow> date \<Rightarrow> string \<Rightarrow> error + user_stats" where
  "get_user_stats db current_date uid =
     (let month_start = replace_day1 current_date;
          total_result = int (length (filter (\<lambda>r. user_id r = uid) db));
          month_result =
            int (length (filter (\<lambda>r. user_id r = uid \<and> entry_date r \<ge> month_start) db));
          avg_mood =
            sql_avg (map mood_rating
              (filter (\<lambda>r. user_id r = uid \<and> entry_date r \<ge> month_start
                          \<and> mood_rating r \<noteq> None) db));
          avg_energy =
            sql_avg (map energy_level
              (filter (\<lambda>r. user_id r = uid \<and> entry_date r \<ge> month_start
                          \<and> energy_level r \<noteq> None) db))
      in case date_sub_days current_date 30 of
           Inl err \<Rightarrow> Inl err
         | Inr thirty_days_ago \<Rightarrow>
             (case build_trend
                     (group_avg_by_date
                        (filter (\<lambda>r. user_id r = uid \<and> entry_date r \<ge> thirty_days_ago
                                    \<and> mood_rating r \<noteq> None) db)) of
                Inl err \<Rightarrow> Inl err
              | Inr trend \<Rightarrow>
                  Inr \<lparr>total_entries = total_result,
                       entries_this_month = month_result,
                       average_mood_this_month = rounded_or_none avg_mood,
                       average_energy_this_month = rounded_or_none avg_energy,
                       most_used_tags = [],
                       mood_trend = trend\<rparr>))"

section \<open>The specification's wording\<close>

text \<open>
  The non-null values of a rating field over a user's entries dated on or after a day, and
  over a user's entries of one day: what the specification averages.
\<close>

definition spec_values_since ::
  "(JournalEntry \<Rightarrow> int option) \<Rightarrow> store \<Rightarrow> string \<Rightarrow> date \<Rightarrow> int list" where
  "spec_values_since fld db uid start =
     List.map_filter fld (filter (\<lambda>r. user_id r = uid \<and> start \<le> entry_date r) db)"

definition spec_day_moods :: "store \<Rightarrow> string \<Rightarrow> date \<Rightarrow> int list" where
  "spec_day_moods db uid d =
     List.map_filter mood_rating (filter (\<lambda>r. user_id r = uid \<and> entry_date r = d) db)"

text \<open>The text \<open>t\<close> occurs in \<open>s\<close> as a contiguous substring (Python's \<^verbatim>\<open>t in s\<close>).\<close>

fun substring :: "string \<Rightarrow> string \<Rightarrow> bool" where
  "substring t [] = (t = [])"
| "substring t (c # cs) = (take (length t) (c # cs) = t \<or> substring t cs)"

text \<open>
  The selection of \<^verbatim>\<open>get_user_entries\<close> in one predicate: the date bounds that are present,
  and the tag filter when it is a non-empty string.
\<close>

definition in_bounds :: "date option \<Rightarrow> date option \<Rightarrow> date \<Rightarrow> bool" where
  "in_bounds from_date to_date d \<longleftrightarrow>
     (case from_date of None \<Rightarrow> True | Some d1 \<Rightarrow> d1 \<le> d) \<and>
     (case to_date of None \<Rightarrow> True | Some d2 \<Rightarrow> d \<le> d2)"

definition tag_selected :: "string option \<Rightarrow> string option \<Rightarrow> bool" where
  "tag_selected tags_filter v =
     (case tags_filter of None \<Rightarrow> True
      | Some t \<Rightarrow> t = [] \<or> column_like (''%'' @ t @ ''%'') v)"

definition ordered_selection ::
  "store \<Rightarrow> string \<Rightarrow> date option \<Rightarrow> date option \<Rightarrow> string option \<Rightarrow> JournalEntry list" where
  "ordered_selection db uid from_date to_date tags_filter =
     order_by_desc entry_date
       (filter (\<lambda>r. user_id r = uid \<and> in_bounds from_date to_date (entry_date r)
                    \<and> tag_selected tags_filter (tags r)) db)"

text \<open>The dates of the trend: those on or after \<open>since\<close> on which the user rated a mood.\<close>

definition trend_dates :: "store \<Rightarrow> string \<Rightarrow> date \<Rightarrow> date list" where
  "trend_dates db uid since =
     sort (remdups (map entry_date
       (filter (\<lambda>r. user_id r = uid \<and> since \<le> entry_date r \<and> mood_rating r \<noteq> None) db)))"

section \<open>Sample data\<close>

definition entry_a :: JournalEntry where
  "entry_a = \<lparr>title = ''Monday'', content = ''slept well'', entry_date = (2024, 1, 5),
              mood_rating = Some 8, energy_level = Some 6, tags = Some ''work,urgent'',
              id' = ''e1'', user_id = ''alice'', created_at = 100, updated_at = 100\<rparr>"

definition entry_b :: JournalEntry where
  "entry_b = \<lparr>title = ''Saturday'', content = ''long day'', entry_date = (2024, 1, 20),
              mood_rating = Some 4, energy_level = None, tags = Some ''homework'',
              id' = ''e2'', user_id = ''alice'', created_at = 200, updated_at = 200\<rparr>"

definition entry_c :: JournalEntry where
  "entry_c = \<lparr>title = ''Notes'', content = ''nothing new'', entry_date = (2024, 1, 20),
              mood_rating = None, energy_level = Some 3, tags = None,
              id' = ''e3'', user_id = ''bob'', created_at = 300, updated_at = 300\<rparr>"

definition entry_d :: JournalEntry where
  "entry_d = \<lparr>title = ''Plan'', content = ''next month'', entry_date = (2024, 2, 15),
              mood_rating = Some 5, energy_level = None, tags = Some ''abc'',
              id' = ''e4'', user_id = ''alice'', created_at = 400, updated_at = 400\<rparr>"

definition sample_db :: store where
  "sample_db = [entry_a, entry_b, entry_c]"

definition sample_create :: JournalEntryCreate where
  "sample_create = \<lparr>title = ''Sunday'', content = ''rest'', entry_date = (2024, 1, 21),
                    mood_rating = Some 7, energy_level = None, tags = None\<rparr>"

text \<open>Three entries of Carol's in January 2024, with moods 1, 2, 2 and energies 1, none, 2.\<close>

definition rated_entry :: "string \<Rightarrow> int \<Rightarrow> int option \<Rightarrow> int option \<Rightarrow> JournalEntry" where
  "rated_entry key day mood energy =
     \<lparr>title = ''Day'', content = ''note'', entry_date = (2024, 1, day),
      mood_rating = mood, energy_level = energy, tags = None,
      id' = key, user_id = ''carol'', created_at = 100, updated_at = 100\<rparr>"

definition rated_db :: store where
  "rated_db = [rated_entry ''r1'' 3 (Some 1) (Some 1), rated_entry ''r2'' 4 (Some 2) None,
               rated_entry ''r3'' 9 (Some 2) (Some 2)]"

section \<open>Auxiliary facts\<close>

lemma get_entry_none:
  "\<forall>r\<in>set db. id' r = eid \<longrightarrow> user_id r \<noteq> uid \<Longrightarrow> get_entry db uid eid = Inr None"
  by (simp add: get_entry_def filter_empty_conv[THEN iffD2])

lemma other_owner_no_match:
  assumes "primary_key db" "r \<in> set db" "id' r = eid" "user_id r \<noteq> uid"
  shows "\<forall>r'\<in>set db. id' r' = eid \<longrightarrow> user_id r' \<noteq> uid"
  using assms unfolding primary_key_def
  by (metis distinct_map inj_onD)

lemma get_entry_SomeD:
  assumes "get_entry db uid eid = Inr (Some e)"
  shows "filter (\<lambda>r. id' r = eid \<and> user_id r = uid) db = [e]"
  using assms unfolding get_entry_def
  by (auto split: list.splits)

lemma get_entry_Some_props:
  assumes "get_entry db uid eid = Inr (Some e)"
  shows "e \<in> set db \<and> id' e = eid \<and> user_id e = uid"
proof -
  have "e \<in> set (filter (\<lambda>r. id' r = eid \<and> user_id r = uid) db)"
    by (simp add: get_entry_SomeD[OF assms])
  then show ?thesis by simp
qed

lemma filter_key_unique:
  assumes "primary_key db" "e \<in> set db"
  shows "filter (\<lambda>r. id' r = id' e) db = [e]"
  using assms unfolding primary_key_def
proof (induction db)
  case Nil
  then show ?case by simp
next
  case (Cons a db)
  show ?case
  proof (cases "a = e")
    case True
    with Cons.prems have "id' e \<notin> id' ` set db" by simp
    then have "\<forall>x\<in>set db. id' x \<noteq> id' e" by (metis image_eqI)
    then have "filter (\<lambda>r. id' r = id' e) db = []"
      by (simp add: filter_empty_conv)
    with True show ?thesis by simp
  next
    case False
    with Cons.prems have "e \<in> set db" "id' a \<noteq> id' e" by auto
    with Cons show ?thesis by simp
  qed
qed

lemma get_entry_owned:
  assumes "primary_key db" "e \<in> set db"
  shows "get_entry db (user_id e) (id' e) = Inr (Some e)"
proof -
  have sub: "filter (\<lambda>r. id' r = id' e \<and> user_id r = user_id e) db
        = filter (\<lambda>r. user_id r = user_id e) (filter (\<lambda>r. id' r = id' e) db)"
    by (simp add: conj_commute)
  show ?thesis
    by (simp add: get_entry_def sub filter_key_unique[OF assms])
qed

lemma write_row_get:
  assumes "primary_key db" "e \<in> set db" "id' e1 = id' e" 
  shows "filter (\<lambda>r. id' r = id' e) (write_row e1 db) = [e1]"
  using assms unfolding primary_key_def write_row_def
proof (induction db)
  case Nil
  then show ?case by simp
next
  case (Cons a db)
  show ?case
  proof (cases "a = e")
    case True
    with Cons.prems have "id' e \<notin> id' ` set db" by simp
    then have "\<forall>x\<in>set db. id' x \<noteq> id' e" by (metis image_eqI)
    then have "filter (\<lambda>r. id' r = id' e) (map (\<lambda>r. if id' r = id' e1 then e1 else r) db) = []"
      using Cons.prems(3) by (simp add: filter_empty_conv)
    with True Cons.prems(3) show ?thesis by simp
  next
    case False
    with Cons.prems have "e \<in> set db" "id' a \<noteq> id' e" by auto
    with Cons show ?thesis by simp
  qed
qed

lemma write_row_ids: "map id' (write_row e db) = map id' db"
  by (induction db) (auto simp: write_row_def)

lemma get_after_write:
  assumes "primary_key db" "e \<in> set db" "id' e1 = id' e" 
  shows "get_entry (write_row e1 db) (user_id e1) (id' e) = Inr (Some e1)"
proof -
  have sub: "filter (\<lambda>r. id' r = id' e \<and> user_id r = user_id e1) (write_row e1 db)
        = filter (\<lambda>r. user_id r = user_id e1) (filter (\<lambda>r. id' r = id' e) (write_row e1 db))"
    by (simp add: conj_commute)
  show ?thesis
    by (simp add: get_entry_def sub write_row_get[OF assms])
qed

lemma order_by_desc_sorted: "sorted_wrt (\<lambda>a b. f b \<le> f a) (order_by_desc f rows)"
proof -
  have "sorted (map f (sort_key f (rev rows)))" by simp
  then have "sorted_wrt (\<lambda>a b. f a \<le> f b) (sort_key f (rev rows))"
    by (simp add: sorted_wrt_map)
  then show ?thesis
    by (simp add: order_by_desc_def sorted_wrt_rev)
qed

lemma order_by_desc_mset: "mset (order_by_desc f rows) = mset rows"
  by (simp add: order_by_desc_def)

lemma order_by_desc_length: "length (order_by_desc f rows) = length rows"
  by (simp add: order_by_desc_def)

lemma get_user_entries_unfold:
  "get_user_entries db uid skip limit from_date to_date tags_filter =
     (if fits_int64 skip \<and> fits_int64 limit
      then Inr (sql_limit limit (sql_offset skip
                  (ordered_selection db uid from_date to_date tags_filter)))
      else Inl OverflowError)"
proof -
  have "filter (\<lambda>r. user_id r = uid \<and> in_bounds from_date to_date (entry_date r)
                    \<and> tag_selected tags_filter (tags r)) db
        = (let query = filter (\<lambda>r. user_id r = uid) db;
          query = (case from_date of
                     None \<Rightarrow> query
                   | Some d \<Rightarrow> filter (\<lambda>r. entry_date r \<ge> d) query);
          query = (case to_date of
                     None \<Rightarrow> query
                   | Some d \<Rightarrow> filter (\<lambda>r. entry_date r \<le> d) query)
          in (case tags_filter of
                     None \<Rightarrow> query
                   | Some t \<Rightarrow>
                       if t = [] then query
                       else filter (\<lambda>r. column_like (''%'' @ t @ ''%'') (tags r)) query))"
    by (cases from_date; cases to_date; cases tags_filter)
       (auto simp: in_bounds_def tag_selected_def Let_def intro: filter_cong)
  then show ?thesis
    by (simp add: get_user_entries_def ordered_selection_def Let_def)
qed

lemma ordered_selection_props:
  "mset (ordered_selection db uid from_date to_date tags_filter)
     = mset (filter (\<lambda>r. user_id r = uid \<and> in_bounds from_date to_date (entry_date r)
                         \<and> tag_selected tags_filter (tags r)) db) \<and>
   sorted_wrt (\<lambda>a b. entry_date b \<le> entry_date a)
     (ordered_selection db uid from_date to_date tags_filter) \<and>
   length (ordered_selection db uid from_date to_date tags_filter) \<le> length db"
  by (simp add: ordered_selection_def order_by_desc_mset order_by_desc_sorted
                order_by_desc_length)

lemma fits_int64_small: "0 \<le> v \<Longrightarrow> v \<le> 1000 \<Longrightarrow> fits_int64 v"
  by (simp add: fits_int64_def)

lemma fits_int64_nonneg: "0 \<le> v \<Longrightarrow> fits_int64 v \<longleftrightarrow> v < 2 ^ 63"
  by (simp add: fits_int64_def)


subsection \<open>Floating point\<close>

lemma bit_length_pos: "0 < n \<Longrightarrow> bit_length n = Suc (bit_length (n div 2))"
  by (cases n) simp_all

lemma bit_length_bounds:
  "0 < n \<Longrightarrow> 2 ^ (bit_length n - 1) \<le> n \<and> n < 2 ^ bit_length n"
proof (induction n rule: bit_length.induct)
  case 1
  then show ?case by simp
next
  case (2 n)
  let ?h = "Suc n div 2"
  have bl: "bit_length (Suc n) = Suc (bit_length ?h)" by simp
  show ?case
  proof (cases "?h = 0")
    case True
    then have "n = 0" by (simp add: div_eq_0_iff)
    then show ?thesis by simp
  next
    case False
    with "2.IH" have IH: "2 ^ (bit_length ?h - 1) \<le> ?h" "?h < 2 ^ bit_length ?h"
      by simp_all
    from False have pos: "0 < bit_length ?h"
      by (simp add: bit_length_pos)
    then have "(2::nat) ^ bit_length ?h = 2 * 2 ^ (bit_length ?h - 1)"
      by (cases "bit_length ?h") simp_all
    with IH(1) have lo: "2 ^ bit_length ?h \<le> Suc n" by linarith
    from IH(2) have hi: "Suc n < 2 * 2 ^ bit_length ?h" by linarith
    from lo hi show ?thesis by (simp only: bl) simp
  qed
qed

lemma round_half_even_bounds:
  "\<lfloor>x\<rfloor> \<le> round_half_even x \<and> \<bar>x - of_int (round_half_even x)\<bar> \<le> 1 / 2"
proof -
  define r where "r = x - of_int \<lfloor>x\<rfloor>"
  have r: "0 \<le> r" "r < 1" unfolding r_def by linarith+
  have x: "x = of_int \<lfloor>x\<rfloor> + r" unfolding r_def by simp
  consider "r < 1 / 2" | "r > 1 / 2" | "r = 1 / 2" by linarith
  then show ?thesis
  proof cases
    case 1
    then have "round_half_even x = \<lfloor>x\<rfloor>"
      by (simp add: round_half_even_def Let_def r_def)
    with 1 r show ?thesis by (simp add: r_def[symmetric])
  next
    case 2
    then have "round_half_even x = \<lfloor>x\<rfloor> + 1"
      by (simp add: round_half_even_def Let_def r_def)
    moreover have "\<bar>x - (of_int \<lfloor>x\<rfloor> + 1)\<bar> \<le> 1 / 2"
      using 2 r by (subst x) (simp add: abs_if)
    ultimately show ?thesis by simp
  next
    case 3
    then have "round_half_even x = \<lfloor>x\<rfloor> \<or> round_half_even x = \<lfloor>x\<rfloor> + 1"
      by (simp add: round_half_even_def Let_def r_def)
    moreover from 3 have h: "x - of_int \<lfloor>x\<rfloor> = 1 / 2" by (simp add: r_def)
    then have "\<bar>x - of_int \<lfloor>x\<rfloor>\<bar> \<le> 1 / 2" by simp
    moreover from h have "x - (of_int \<lfloor>x\<rfloor> + 1) = - (1 / 2)" by simp
    then have "\<bar>x - (of_int \<lfloor>x\<rfloor> + 1)\<bar> \<le> 1 / 2" by simp
    ultimately show ?thesis by auto
  qed
qed

lemma pow2_ratio: "(2::rat) powi (int m - int n) = 2 ^ m / 2 ^ n"
proof -
  have "(2::rat) powi (int m - int n) = 2 powi int m / 2 powi int n"
    by (rule power_int_diff) simp
  then show ?thesis by simp
qed

lemma floor_log2_cases:
  assumes "quotient_of a = (p, q)"
  shows "floor_log2 a = int (bit_length (nat p)) - int (bit_length (nat q)) \<and>
           2 powi (int (bit_length (nat p)) - int (bit_length (nat q))) \<le> a
         \<or> floor_log2 a = int (bit_length (nat p)) - int (bit_length (nat q)) - 1"
  unfolding floor_log2_def assms by (simp add: Let_def)

lemma rat_ge_pow:
  assumes "0 < p" and "0 < q"
  shows "(2::rat) ^ (bit_length (nat p) - 1) / 2 ^ bit_length (nat q) \<le> of_int p / of_int q"
proof -
  let ?bp = "bit_length (nat p)" and ?bq = "bit_length (nat q)"
  from assms(1) bit_length_bounds[of "nat p"] have "2 ^ (?bp - 1) \<le> nat p" by simp
  then have "int (2 ^ (?bp - 1)) \<le> int (nat p)" by (simp only: of_nat_le_iff)
  with assms(1) have "int (2 ^ (?bp - 1)) \<le> p" by simp
  then have "(of_int (int (2 ^ (?bp - 1))) :: rat) \<le> of_int p" by (simp only: of_int_le_iff)
  then have lo: "(2::rat) ^ (?bp - 1) \<le> of_int p" by simp
  from assms(2) bit_length_bounds[of "nat q"] have "nat q < 2 ^ ?bq" by simp
  then have "int (nat q) < int (2 ^ ?bq)" by (simp only: of_nat_less_iff)
  with assms(2) have "q < int (2 ^ ?bq)" by simp
  then have "(of_int q :: rat) < of_int (int (2 ^ ?bq))" by (simp only: of_int_less_iff)
  then have hi: "of_int q \<le> (2::rat) ^ ?bq" by simp
  have p': "(0::rat) \<le> of_int p" and q': "(0::rat) < of_int q"
    using assms by simp_all
  have "(2::rat) ^ (?bp - 1) / 2 ^ ?bq \<le> of_int p / 2 ^ ?bq"
    using lo by (rule divide_right_mono) simp
  also have "\<dots> \<le> of_int p / of_int q"
    using hi p' by (rule divide_left_mono) (use q' in simp)
  finally show ?thesis .
qed

lemma floor_log2_le:
  assumes "0 < a"
  shows "2 powi (floor_log2 a) \<le> a"
proof -
  obtain p q where pq: "quotient_of a = (p, q)" by (cases "quotient_of a")
  have q: "0 < q" using pq by (rule quotient_of_denom_pos)
  have a: "a = of_int p / of_int q" using pq by (rule quotient_of_div)
  from assms a have "0 < (of_int p :: rat) / of_int q" by simp
  with q have p: "0 < p" by (simp add: zero_less_divide_iff)
  let ?bp = "bit_length (nat p)" and ?bq = "bit_length (nat q)"
  from floor_log2_cases[OF pq] show ?thesis
  proof
    assume "floor_log2 a = int ?bp - int ?bq \<and> 2 powi (int ?bp - int ?bq) \<le> a"
    then show ?thesis by (simp only:)
  next
    assume fl: "floor_log2 a = int ?bp - int ?bq - 1"
    from p have "0 < ?bp" by (simp add: bit_length_pos)
    then have "int ?bp - int ?bq - 1 = int (?bp - 1) - int ?bq" by linarith
    then have "(2::rat) powi (floor_log2 a) = 2 ^ (?bp - 1) / 2 ^ ?bq"
      by (simp only: fl pow2_ratio)
    also have "\<dots> \<le> of_int p / of_int q" using p q by (rule rat_ge_pow)
    finally show ?thesis by (simp only: a[symmetric])
  qed
qed

lemma nearest_double_nonzero:
  assumes "q \<noteq> 0"
  shows "nearest_double q \<noteq> 0"
proof -
  define a where "a = \<bar>q\<bar>"
  define e where "e = floor_log2 a - 52"
  define m where "m = round_half_even (a / 2 powi e)"
  from assms have a: "0 < a" by (simp add: a_def)
  have pw: "(0::rat) < 2 powi e" by (rule zero_less_power_int) simp
  have "(2::rat) powi (floor_log2 a) = 2 powi (e + 52)" by (simp add: e_def)
  also have "\<dots> = 2 powi e * 2 powi 52" by (rule power_int_add) simp
  finally have "2 powi e * 2 powi 52 \<le> a" using floor_log2_le[OF a] by simp
  then have "(2::rat) powi 52 \<le> a / 2 powi e"
    using pw by (simp add: pos_le_divide_eq mult.commute)
  moreover have "(1::rat) \<le> 2 powi 52" by simp
  ultimately have "(1::rat) \<le> a / 2 powi e" by (rule order_trans[rotated])
  then have "1 \<le> \<lfloor>a / 2 powi e\<rfloor>" by linarith
  with round_half_even_bounds[of "a / 2 powi e"] have "0 < m" unfolding m_def by linarith
  then have "sgn q * of_int m * 2 powi e \<noteq> 0"
    using assms pw by (simp add: sgn_eq_0_iff)
  moreover have "nearest_double q = sgn q * of_int m * 2 powi e"
    using assms by (simp add: nearest_double_def Let_def m_def e_def a_def)
  ultimately show ?thesis by simp
qed

lemma py_round_hundredth:
  "\<exists>k. py_round x 2 = nearest_double (of_int k / 100) \<and> \<bar>x * 100 - of_int k\<bar> \<le> 1 / 2"
proof -
  define k where "k = round_half_even (x * 100)"
  have "py_round x 2 = nearest_double (of_int k / 100)"
    by (simp add: py_round_def k_def)
  moreover have "\<bar>x * 100 - of_int k\<bar> \<le> 1 / 2"
    using round_half_even_bounds[of "x * 100"] by (simp add: k_def)
  ultimately show ?thesis by blast
qed

lemma nearest_double_error: "\<bar>nearest_double q - q\<bar> \<le> \<bar>q\<bar> / 2 ^ 53"
proof (cases "q = 0")
  case True
  then show ?thesis by (simp add: nearest_double_def)
next
  case False
  define a where "a = \<bar>q\<bar>"
  define e where "e = floor_log2 a - 52"
  define P where "P = (2::rat) powi e"
  define y where "y = a / P"
  define m where "m = round_half_even y"
  define s where "s = sgn q"
  from False have a: "0 < a" by (simp add: a_def)
  have pw: "0 < P" unfolding P_def by (rule zero_less_power_int) simp
  have nd: "nearest_double q = s * of_int m * P"
    using False by (simp add: nearest_double_def Let_def m_def y_def P_def e_def a_def s_def)
  have q: "q = s * a" by (simp add: a_def s_def mult_sgn_abs)
  have ay: "a = y * P" using pw by (simp add: y_def)
  have s1: "\<bar>s\<bar> = 1" using False by (simp add: s_def abs_sgn_eq)
  have "nearest_double q - q = s * of_int m * P - s * (y * P)"
    by (simp only: nd) (simp only: q[unfolded ay, symmetric])
  also have "\<dots> = s * ((of_int m - y) * P)" by (simp add: algebra_simps)
  finally have "\<bar>nearest_double q - q\<bar> = \<bar>s\<bar> * (\<bar>of_int m - y\<bar> * \<bar>P\<bar>)"
    by (simp only: abs_mult)
  then have eq: "\<bar>nearest_double q - q\<bar> = \<bar>of_int m - y\<bar> * P"
    using pw by (simp add: s1)
  have "\<bar>y - of_int m\<bar> \<le> 1 / 2"
    using round_half_even_bounds[of y] by (simp add: m_def)
  then have "\<bar>of_int m - y\<bar> \<le> 1 / 2" by (simp only: abs_minus_commute)
  then have "\<bar>of_int m - y\<bar> * P \<le> (1 / 2) * P"
    using pw by (intro mult_right_mono) simp_all
  with eq have le1: "\<bar>nearest_double q - q\<bar> \<le> P / 2" by simp
  have "(2::rat) powi (floor_log2 a) = 2 powi (e + 52)" by (simp add: e_def)
  also have "\<dots> = P * 2 powi 52" unfolding P_def by (rule power_int_add) simp
  finally have "P * 2 powi 52 \<le> a" using floor_log2_le[OF a] by simp
  then have le2: "P * 4503599627370496 \<le> a" by simp
  have "\<bar>nearest_double q - q\<bar> * 9007199254740992 \<le> (P / 2) * 9007199254740992"
    using le1 by (rule mult_right_mono) simp
  also have "(P / 2) * 9007199254740992 = P * 4503599627370496" by simp
  also note le2
  finally have "\<bar>nearest_double q - q\<bar> * 9007199254740992 \<le> a" .
  then have "\<bar>nearest_double q - q\<bar> \<le> a / 9007199254740992"
    by (simp add: pos_le_divide_eq)
  then show ?thesis by (simp add: a_def)
qed

lemma py_round_mean:
  "\<exists>k. py_round (nearest_double q) 2 = nearest_double (of_int k / 100) \<and>
       \<bar>q * 100 - of_int k\<bar> \<le> 1 / 2 + 100 * \<bar>q\<bar> / 2 ^ 53"
proof -
  define x where "x = nearest_double q"
  define c where "c = \<bar>q\<bar> / 2 ^ 53"
  from py_round_hundredth[of x] obtain k where
    k: "py_round x 2 = nearest_double (of_int k / 100)" and B: "\<bar>x * 100 - of_int k\<bar> \<le> 1 / 2"
    by blast
  have e: "\<bar>x - q\<bar> \<le> c" unfolding x_def c_def by (rule nearest_double_error)
  have "q * 100 - x * 100 = (q - x) * 100" by (simp only: left_diff_distrib)
  then have "\<bar>q * 100 - x * 100\<bar> = \<bar>q - x\<bar> * \<bar>100\<bar>" by (simp only: abs_mult)
  also have "\<bar>q - x\<bar> = \<bar>x - q\<bar>" by (rule abs_minus_commute)
  also have "\<bar>100::rat\<bar> = 100" by simp
  finally have "\<bar>q * 100 - x * 100\<bar> = \<bar>x - q\<bar> * 100" .
  moreover have "\<bar>x - q\<bar> * 100 \<le> c * 100" using e by (rule mult_right_mono) simp
  ultimately have A: "\<bar>q * 100 - x * 100\<bar> \<le> c * 100" by simp
  have "q * 100 - of_int k = (q * 100 - x * 100) + (x * 100 - of_int k)" by simp
  then have "\<bar>q * 100 - of_int k\<bar> \<le> \<bar>q * 100 - x * 100\<bar> + \<bar>x * 100 - of_int k\<bar>"
    by (simp only: abs_triangle_ineq)
  also have "\<dots> \<le> c * 100 + 1 / 2" using A B by (rule add_mono)
  also have "c * 100 + 1 / 2 = 1 / 2 + 100 * \<bar>q\<bar> / 2 ^ 53" by (simp add: c_def)
  finally have "\<bar>q * 100 - of_int k\<bar> \<le> 1 / 2 + 100 * \<bar>q\<bar> / 2 ^ 53" .
  with k show ?thesis unfolding x_def by blast
qed

lemma rounded_mean_hundredth:
  assumes "(if vs = [] then None else Some (py_round (nearest_double (mean vs)) 2)) = Some r"
  shows "\<exists>k. r = nearest_double (of_int k / 100) \<and>
             \<bar>mean vs * 100 - of_int k\<bar> \<le> 1 / 2 + 100 * \<bar>mean vs\<bar> / 2 ^ 53"
proof -
  from assms have "r = py_round (nearest_double (mean vs)) 2"
    by (simp split: if_splits)
  with py_round_mean[of "mean vs"] show ?thesis by simp
qed

subsection \<open>Statistics\<close>

lemma map_filter_nonnull:
  "List.map_filter (\<lambda>v. v) (map fld (filter (\<lambda>r. P r \<and> fld r \<noteq> None) rows))
     = List.map_filter fld (filter P rows)"
  by (induction rows) (auto simp: List.map_filter_simps split: option.splits)

lemma sql_avg_nonnull:
  "sql_avg (map fld (filter (\<lambda>r. P r \<and> fld r \<noteq> None) rows))
     = (if List.map_filter fld (filter P rows) = [] then None
        else Some (nearest_double (mean (List.map_filter fld (filter P rows)))))"
  by (simp only: sql_avg_def map_filter_nonnull Let_def)

lemma sum_list_ge_length:
  "\<forall>x\<in>set xs. (1::int) \<le> x \<Longrightarrow> int (length xs) \<le> sum_list xs"
  by (induction xs) auto

lemma mean_nonzero:
  assumes "xs \<noteq> []" and "\<forall>x\<in>set xs. (1::int) \<le> x"
  shows "mean xs \<noteq> 0"
proof -
  have "0 < length xs" using assms(1) by simp
  moreover have "int (length xs) \<le> sum_list xs" using assms(2) by (rule sum_list_ge_length)
  ultimately have "0 < sum_list xs" by linarith
  then show ?thesis using \<open>0 < length xs\<close> by (simp add: mean_def)
qed

lemma map_filter_set:
  "set (List.map_filter fld rows) = {v. \<exists>r\<in>set rows. fld r = Some v}"
  by (induction rows) (auto simp: List.map_filter_simps split: option.splits)

lemma valid_store_values:
  assumes "valid_store db"
  shows "\<forall>x\<in>set (spec_values_since mood_rating db uid start). 1 \<le> x"
    and "\<forall>x\<in>set (spec_values_since energy_level db uid start). 1 \<le> x"
  using assms
  by (auto simp: spec_values_since_def map_filter_set valid_store_def list_all_iff
                 valid_base_def valid_rating_def split: option.splits)

lemma rounded_or_none_values:
  assumes "\<forall>x\<in>set (List.map_filter fld (filter P rows)). 1 \<le> x"
  shows "rounded_or_none (sql_avg (map fld (filter (\<lambda>r. P r \<and> fld r \<noteq> None) rows)))
     = (if List.map_filter fld (filter P rows) = [] then None
        else Some (py_round (nearest_double (mean (List.map_filter fld (filter P rows)))) 2))"
proof (cases "List.map_filter fld (filter P rows) = []")
  case True
  then show ?thesis
    by (simp add: sql_avg_nonnull rounded_or_none_def del: not_None_eq)
next
  case False
  from mean_nonzero[OF False assms]
  have "nearest_double (mean (List.map_filter fld (filter P rows))) \<noteq> 0"
    by (rule nearest_double_nonzero)
  with False show ?thesis
    by (simp add: sql_avg_nonnull rounded_or_none_def py_float_def del: not_None_eq)
qed

lemma build_trend_total:
  "build_trend (map (\<lambda>d. (d, Some (g d))) ds) = Inr (map (\<lambda>d. (isoformat d, g d)) ds)"
  by (induction ds) (auto simp: py_float_def)

lemma group_rows:
  assumes "\<forall>r\<in>set rows. mood_rating r \<noteq> None"
  shows "group_avg_by_date rows
     = map (\<lambda>d. (d, Some (nearest_double
                     (mean (List.map_filter mood_rating (filter (\<lambda>r. entry_date r = d) rows))))))
         (sort (remdups (map entry_date rows)))"
proof -
  have "sql_avg (map mood_rating (filter (\<lambda>r. entry_date r = d) rows))
          = Some (nearest_double
                    (mean (List.map_filter mood_rating (filter (\<lambda>r. entry_date r = d) rows))))"
    if "d \<in> set (sort (remdups (map entry_date rows)))" for d
  proof -
    from that obtain r where r: "r \<in> set rows" "entry_date r = d" by auto
    with assms obtain v where "mood_rating r = Some v" by auto
    with r have "v \<in> set (List.map_filter mood_rating (filter (\<lambda>r. entry_date r = d) rows))"
      by (auto simp: map_filter_set)
    then have ne: "List.map_filter mood_rating (filter (\<lambda>r. entry_date r = d) rows) \<noteq> []"
      by auto
    have "List.map_filter (\<lambda>v. v) (map mood_rating (filter (\<lambda>r. entry_date r = d) rows))
            = List.map_filter mood_rating (filter (\<lambda>r. entry_date r = d) rows)"
      by (induction rows) (auto simp: List.map_filter_simps split: option.splits)
    with ne show ?thesis by (simp add: sql_avg_def)
  qed
  then show ?thesis
    unfolding group_avg_by_date_def by (intro map_cong) auto
qed

lemma day_moods_window:
  assumes "since \<le> d"
  shows "List.map_filter mood_rating (filter (\<lambda>r. entry_date r = d)
           (filter (\<lambda>r. user_id r = uid \<and> since \<le> entry_date r \<and> mood_rating r \<noteq> None) db))
         = spec_day_moods db uid d"
  using assms unfolding spec_day_moods_def
  by (induction db) (auto simp: List.map_filter_simps split: option.splits)

lemma trend_dates_props:
  "sorted (trend_dates db uid since) \<and> distinct (trend_dates db uid since) \<and>
   set (trend_dates db uid since)
     = {d. since \<le> d \<and> (\<exists>r\<in>set db. user_id r = uid \<and> entry_date r = d \<and> mood_rating r \<noteq> None)}"
proof -
  have "set (trend_dates db uid since)
     = {d. since \<le> d \<and> (\<exists>r\<in>set db. user_id r = uid \<and> entry_date r = d \<and> mood_rating r \<noteq> None)}"
    unfolding trend_dates_def by (simp del: not_None_eq) blast
  then show ?thesis
    by (simp add: trend_dates_def del: not_None_eq)
qed

lemma trend_points:
  "build_trend (group_avg_by_date
      (filter (\<lambda>r. user_id r = uid \<and> since \<le> entry_date r \<and> mood_rating r \<noteq> None) db))
     = Inr (map (\<lambda>d. (isoformat d, nearest_double (mean (spec_day_moods db uid d))))
              (trend_dates db uid since))"
proof -
  let ?rows = "filter (\<lambda>r. user_id r = uid \<and> since \<le> entry_date r \<and> mood_rating r \<noteq> None) db"
  have nn: "\<forall>r\<in>set ?rows. mood_rating r \<noteq> None" by simp
  have "map (\<lambda>d. (d, Some (nearest_double
                (mean (List.map_filter mood_rating (filter (\<lambda>r. entry_date r = d) ?rows))))))
           (trend_dates db uid since)
        = map (\<lambda>d. (d, Some (nearest_double (mean (spec_day_moods db uid d)))))
              (trend_dates db uid since)"
  proof (rule map_cong[OF refl])
    fix d assume "d \<in> set (trend_dates db uid since)"
    then have "since \<le> d"
      using trend_dates_props[of db uid since] by blast
    then show "(d, Some (nearest_double
                  (mean (List.map_filter mood_rating (filter (\<lambda>r. entry_date r = d) ?rows)))))
        = (d, Some (nearest_double (mean (spec_day_moods db uid d))))"
      by (simp only: day_moods_window)
  qed
  then have "group_avg_by_date ?rows
        = map (\<lambda>d. (d, Some (nearest_double (mean (spec_day_moods db uid d)))))
              (trend_dates db uid since)"
    by (simp only: group_rows[OF nn] trend_dates_def)
  then show ?thesis
    by (simp only: build_trend_total)
qed

lemma date_sub_days_ok:
  assumes "30 < toordinal d" and "toordinal d \<le> MAXORDINAL"
  shows "date_sub_days d 30 = Inr (fromordinal (toordinal d - 30))"
  using assms by (simp add: date_sub_days_def date_add_days_def Let_def)

lemma monthly_value:
  assumes "\<forall>x\<in>set (spec_values_since fld db uid start). 1 \<le> x"
  shows "rounded_or_none
           (sql_avg (map fld (filter (\<lambda>r. user_id r = uid \<and> entry_date r \<ge> start
                                          \<and> fld r \<noteq> None) db)))
         = (let vs = spec_values_since fld db uid start
            in if vs = [] then None else Some (py_round (nearest_double (mean vs)) 2))"
proof -
  have "filter (\<lambda>r. user_id r = uid \<and> entry_date r \<ge> start \<and> fld r \<noteq> None) db
      = filter (\<lambda>r. (user_id r = uid \<and> start \<le> entry_date r) \<and> fld r \<noteq> None) db"
    by (simp only: conj_assoc)
  then show ?thesis
    using rounded_or_none_values[of fld "\<lambda>r. user_id r = uid \<and> start \<le> entry_date r" db] assms
    by (simp only: spec_values_since_def Let_def)
qed

lemma get_user_stats_ok:
  assumes "date_sub_days current_date 30 = Inr since"
  shows "get_user_stats db current_date uid =
     Inr \<lparr>total_entries = int (length (filter (\<lambda>r. user_id r = uid) db)),
          entries_this_month =
            int (length (filter (\<lambda>r. user_id r = uid \<and> entry_date r \<ge> replace_day1 current_date) db)),
          average_mood_this_month = rounded_or_none
            (sql_avg (map mood_rating (filter (\<lambda>r. user_id r = uid \<and> entry_date r \<ge> replace_day1 current_date
                          \<and> mood_rating r \<noteq> None) db))),
          average_energy_this_month = rounded_or_none
            (sql_avg (map energy_level (filter (\<lambda>r. user_id r = uid \<and> entry_date r \<ge> replace_day1 current_date
                          \<and> energy_level r \<noteq> None) db))),
          most_used_tags = [],
          mood_trend = map (\<lambda>d. (isoformat d, nearest_double (mean (spec_day_moods db uid d))))
              (trend_dates db uid since)\<rparr>"
  by (simp add: get_user_stats_def Let_def assms trend_points del: not_None_eq)

text \<open>
  What the trend query computes: for a clock date from 0001-01-31 on the call returns, with
  one point per date on or after \<open>current_date - 30 days\<close> on which the user rated a mood, in
  strictly ascending order of the dates; a point carries \<^verbatim>\<open>str(d)\<close> and the mean of the
  non-null mood ratings of the user's entries of that date, as a double.
\<close>

lemma mood_trend_since:
  assumes "30 < toordinal current_date" and "toordinal current_date \<le> MAXORDINAL"
  shows "\<exists>st since ds.
           date_sub_days current_date 30 = Inr since \<and>
           get_user_stats db current_date uid = Inr st \<and>
           mood_trend st
             = map (\<lambda>d. (isoformat d, nearest_double (mean (spec_day_moods db uid d)))) ds \<and>
           sorted ds \<and> distinct ds \<and>
           set ds = {d. since \<le> d \<and>
                        (\<exists>r\<in>set db. user_id r = uid \<and> entry_date r = d \<and> mood_rating r \<noteq> None)}"
proof -
  let ?since = "fromordinal (toordinal current_date - 30)"
  note s = date_sub_days_ok[OF assms]
  have "\<exists>st. get_user_stats db current_date uid = Inr st \<and>
          mood_trend st = map (\<lambda>d. (isoformat d, nearest_double (mean (spec_day_moods db uid d))))
                              (trend_dates db uid ?since)"
    unfolding get_user_stats_ok[OF s] by simp
  then show ?thesis
    using trend_dates_props[of db uid ?since] s by blast
qed

subsection \<open>The schema constraints are an invariant of the table\<close>

text \<open>
  Rows enter the table through \<^verbatim>\<open>create_entry\<close> and change through \<^verbatim>\<open>update_entry\<close>, both fed
  with validated requests; so every stored rating lies within 1..10 and the key stays unique.
\<close>

lemma create_entry_valid:
  assumes "valid_store db" and "valid_base entry_data"
    and "create_entry db new_id now uid entry_data = Inr (e, db')"
  shows "valid_store db'"
proof -
  let ?e = "\<lparr>title = title entry_data, content = content entry_data,
             entry_date = entry_date entry_data, mood_rating = mood_rating entry_data,
             energy_level = energy_level entry_data, tags = tags entry_data,
             id' = new_id, user_id = uid, created_at = now, updated_at = now\<rparr>"
  from assms(3) have fresh: "new_id \<notin> set (map id' db)" and db': "db' = db @ [?e]"
    by (auto simp: create_entry_def Let_def split: if_splits)
  have "valid_base ?e"
    using assms(2) by (simp add: valid_base_def)
  moreover have "primary_key db'"
    using assms(1) fresh by (simp add: db' valid_store_def primary_key_def)
  ultimately show ?thesis
    using assms(1) by (simp add: db' valid_store_def)
qed


lemma setattr_required_valid:
  assumes "P old" and "valid_field P f"
  shows "P (setattr_required f old)"
proof (cases f)
  case Unset
  with assms(1) show ?thesis by (simp add: setattr_required_def)
next
  case (Supplied v)
  with assms show ?thesis
    by (cases v) (simp_all add: setattr_required_def valid_field_def)
qed

lemma setattr_rating_valid:
  assumes "valid_rating old" and "valid_field (\<lambda>v. 1 \<le> v \<and> v \<le> 10) f"
  shows "valid_rating (setattr_nullable f old)"
proof (cases f)
  case Unset
  with assms(1) show ?thesis by (simp add: setattr_nullable_def)
next
  case (Supplied v)
  with assms(2) show ?thesis
    by (cases v) (simp_all add: setattr_nullable_def valid_field_def valid_rating_def)
qed

lemma setattr_tags_valid:
  assumes "valid_tags old" and "valid_field (\<lambda>s. length s \<le> 500) f"
  shows "valid_tags (setattr_nullable f old)"
proof (cases f)
  case Unset
  with assms(1) show ?thesis by (simp add: setattr_nullable_def)
next
  case (Supplied v)
  with assms(2) show ?thesis
    by (cases v) (simp_all add: setattr_nullable_def valid_field_def valid_tags_def)
qed


lemma set_fields_valid:
  assumes "valid_base e" and "valid_update d"
  shows "valid_base ((set_fields d e)\<lparr>updated_at := now\<rparr>)"
proof -
  from assms(1) have e: "1 \<le> length (title e) \<and> length (title e) \<le> 255"
      "1 \<le> length (content e)" "valid_date (entry_date e)" "valid_rating (mood_rating e)"
      "valid_rating (energy_level e)" "valid_tags (tags e)"
    by (simp_all add: valid_base_def)
  from assms(2) have d: "valid_field (\<lambda>t. 1 \<le> length t \<and> length t \<le> 255) (title_upd d)"
      "valid_field (\<lambda>c. 1 \<le> length c) (content_upd d)"
      "valid_field valid_date (entry_date_upd d)"
      "valid_field (\<lambda>v. 1 \<le> v \<and> v \<le> 10) (mood_rating_upd d)"
      "valid_field (\<lambda>v. 1 \<le> v \<and> v \<le> 10) (energy_level_upd d)"
      "valid_field (\<lambda>s. length s \<le> 500) (tags_upd d)"
    by (simp_all add: valid_update_def)
  note t = setattr_required_valid[where P = "\<lambda>t. 1 \<le> length t \<and> length t \<le> 255", OF e(1) d(1)]
  note c = setattr_required_valid[where P = "\<lambda>c. 1 \<le> length c", OF e(2) d(2)]
  note dt = setattr_required_valid[where P = valid_date, OF e(3) d(3)]
  note m = setattr_rating_valid[OF e(4) d(4)]
  note en = setattr_rating_valid[OF e(5) d(5)]
  note tg = setattr_tags_valid[OF e(6) d(6)]
  show ?thesis
    using t c dt m en tg by (simp add: valid_base_def set_fields_def)
qed


lemma write_row_valid:
  assumes "valid_store db" and "valid_base e"
  shows "valid_store (write_row e db)"
proof -
  have "primary_key (write_row e db)"
    using assms(1) by (simp add: valid_store_def primary_key_def write_row_ids)
  moreover have "list_all valid_base (write_row e db)"
    using assms by (auto simp: valid_store_def list_all_iff write_row_def)
  ultimately show ?thesis by (simp add: valid_store_def)
qed

lemma update_entry_valid:
  assumes "valid_store db" and "valid_update d"
    and "update_entry db now uid eid d = Inr (res, db')"
  shows "valid_store db'"
proof (cases "get_entry db uid eid")
  case (Inl err)
  with assms(3) show ?thesis by (simp add: update_entry_def)
next
  case (Inr found)
  show ?thesis
  proof (cases found)
    case None
    with Inr assms(1,3) show ?thesis by (simp add: update_entry_def)
  next
    case (Some e)
    with Inr have g: "get_entry db uid eid = Inr (Some e)" by simp
    from get_entry_Some_props[OF g] assms(1) have "valid_base e"
      by (simp add: valid_store_def list_all_iff)
    then have "valid_base ((set_fields d e)\<lparr>updated_at := now\<rparr>)"
      using assms(2) by (rule set_fields_valid)
    with assms(1) have v: "valid_store (write_row ((set_fields d e)\<lparr>updated_at := now\<rparr>) db)"
      by (rule write_row_valid)
    from assms(3) g have "db' = write_row ((set_fields d e)\<lparr>updated_at := now\<rparr>) db"
      by (simp add: update_entry_def Let_def split: if_splits)
    with v show ?thesis by simp
  qed
qed

lemma delete_entry_valid:
  assumes "valid_store db" and "delete_entry db uid eid = Inr (res, db')"
  shows "valid_store db'"
proof (cases "get_entry db uid eid")
  case (Inl err)
  with assms(2) show ?thesis by (simp add: delete_entry_def)
next
  case (Inr found)
  show ?thesis
  proof (cases found)
    case None
    with Inr assms show ?thesis by (simp add: delete_entry_def)
  next
    case (Some e)
    with Inr assms(2) have db': "db' = filter (\<lambda>r. id' r \<noteq> id' e) db"
      by (simp add: delete_entry_def)
    from assms(1) have "distinct (map id' db)" "list_all valid_base db"
      by (simp_all add: valid_store_def primary_key_def)
    then show ?thesis
      by (simp add: db' valid_store_def primary_key_def distinct_map_filter list_all_iff)
  qed
qed

subsection \<open>The tag pattern on filters without wildcard characters\<close>

text \<open>
  For a filter text that has neither \<open>%\<close> nor \<open>_\<close>, the pattern \<^verbatim>\<open>%text%\<close> is a substring
  search that ignores the case of ASCII letters.
\<close>

lemma like_percent_all: "like_match ''%'' s"
  by (induction s) simp_all

lemma like_percent:
  "like_match (CHR ''%'' # p) s \<longleftrightarrow> (\<exists>i\<le>length s. like_match p (drop i s))"
proof (induction s)
  case Nil
  show ?case by simp
next
  case (Cons c cs)
  have "(\<exists>i\<le>length (c # cs). like_match p (drop i (c # cs)))
          \<longleftrightarrow> like_match p (c # cs) \<or> (\<exists>j\<le>length cs. like_match p (drop j cs))"
  proof
    assume "\<exists>i\<le>length (c # cs). like_match p (drop i (c # cs))"
    then obtain i where i: "i \<le> length (c # cs)" "like_match p (drop i (c # cs))" by blast
    show "like_match p (c # cs) \<or> (\<exists>j\<le>length cs. like_match p (drop j cs))"
    proof (cases i)
      case 0
      with i show ?thesis by simp
    next
      case (Suc j)
      with i have "j \<le> length cs" "like_match p (drop j cs)" by simp_all
      then show ?thesis by blast
    qed
  next
    assume "like_match p (c # cs) \<or> (\<exists>j\<le>length cs. like_match p (drop j cs))"
    then show "\<exists>i\<le>length (c # cs). like_match p (drop i (c # cs))"
    proof
      assume "like_match p (c # cs)"
      then have "0 \<le> length (c # cs) \<and> like_match p (drop 0 (c # cs))" by simp
      then show ?thesis by blast
    next
      assume "\<exists>j\<le>length cs. like_match p (drop j cs)"
      then obtain j where "j \<le> length cs" "like_match p (drop j cs)" by blast
      then have "Suc j \<le> length (c # cs) \<and> like_match p (drop (Suc j) (c # cs))" by simp
      then show ?thesis by blast
    qed
  qed
  with Cons.IH show ?case by simp
qed

lemma like_literal_prefix:
  assumes "CHR ''%'' \<notin> set t" and "CHR ''_'' \<notin> set t"
  shows "like_match (t @ ''%'') s \<longleftrightarrow>
           length t \<le> length s \<and> map ascii_lower (take (length t) s) = map ascii_lower t"
  using assms
proof (induction t arbitrary: s)
  case Nil
  show ?case by (simp add: like_percent_all)
next
  case (Cons x xs)
  then have x: "x \<noteq> CHR ''%''" "x \<noteq> CHR ''_''" and
    IH: "\<And>s. like_match (xs @ ''%'') s \<longleftrightarrow>
           length xs \<le> length s \<and> map ascii_lower (take (length xs) s) = map ascii_lower xs"
    by auto
  show ?case
  proof (cases s)
    case Nil
    with x show ?thesis by simp
  next
    case (Cons c cs)
    with x IH[of cs] show ?thesis
      by (auto simp: like_char_eq_def)
  qed
qed

lemma substring_iff:
  "substring t s \<longleftrightarrow> (\<exists>i\<le>length s. take (length t) (drop i s) = t)"
proof (induction s)
  case Nil
  show ?case by auto
next
  case (Cons c cs)
  have "(\<exists>i\<le>length (c # cs). take (length t) (drop i (c # cs)) = t)
          \<longleftrightarrow> take (length t) (c # cs) = t \<or> (\<exists>j\<le>length cs. take (length t) (drop j cs) = t)"
  proof
    assume "\<exists>i\<le>length (c # cs). take (length t) (drop i (c # cs)) = t"
    then obtain i where i: "i \<le> length (c # cs)" "take (length t) (drop i (c # cs)) = t" by blast
    show "take (length t) (c # cs) = t \<or> (\<exists>j\<le>length cs. take (length t) (drop j cs) = t)"
    proof (cases i)
      case 0
      with i show ?thesis by simp
    next
      case (Suc j)
      with i have "j \<le> length cs" "take (length t) (drop j cs) = t" by simp_all
      then show ?thesis by blast
    qed
  next
    assume "take (length t) (c # cs) = t \<or> (\<exists>j\<le>length cs. take (length t) (drop j cs) = t)"
    then show "\<exists>i\<le>length (c # cs). take (length t) (drop i (c # cs)) = t"
    proof
      assume "take (length t) (c # cs) = t"
      then have "0 \<le> length (c # cs) \<and> take (length t) (drop 0 (c # cs)) = t" by simp
      then show ?thesis by blast
    next
      assume "\<exists>j\<le>length cs. take (length t) (drop j cs) = t"
      then obtain j where "j \<le> length cs" "take (length t) (drop j cs) = t" by blast
      then have "Suc j \<le> length (c # cs) \<and> take (length t) (drop (Suc j) (c # cs)) = t" by simp
      then show ?thesis by blast
    qed
  qed
  with Cons.IH show ?case by simp
qed

lemma take_eq_length:
  assumes "map f (take (length t) u) = map f t"
  shows "length t \<le> length u"
proof -
  from assms have "length (take (length t) u) = length t"
    by (metis length_map)
  then show ?thesis by simp
qed

lemma like_is_substring:
  assumes "CHR ''%'' \<notin> set t" and "CHR ''_'' \<notin> set t"
  shows "like_match (''%'' @ t @ ''%'') s
           \<longleftrightarrow> substring (map ascii_lower t) (map ascii_lower s)"
proof -
  have "like_match (''%'' @ t @ ''%'') s
          \<longleftrightarrow> (\<exists>i\<le>length s. like_match (t @ ''%'') (drop i s))"
    by (simp add: like_percent)
  also have "\<dots> \<longleftrightarrow> (\<exists>i\<le>length s. map ascii_lower (take (length t) (drop i s)) = map ascii_lower t)"
  proof -
    have "like_match (t @ ''%'') (drop i s)
            \<longleftrightarrow> map ascii_lower (take (length t) (drop i s)) = map ascii_lower t" for i
      using take_eq_length[of ascii_lower t "drop i s"]
      unfolding like_literal_prefix[OF assms] by blast
    then show ?thesis by simp
  qed
  also have "\<dots> \<longleftrightarrow> substring (map ascii_lower t) (map ascii_lower s)"
    by (simp add: substring_iff take_map drop_map)
  finally show ?thesis .
qed

subsection \<open>Facts about the sample data\<close>

lemmas sample_defs = sample_db_def entry_a_def entry_b_def entry_c_def entry_d_def sample_create_def

lemma sample_get_a: "get_entry sample_db ''alice'' ''e1'' = Inr (Some entry_a)"
  by (simp add: get_entry_def sample_defs)

lemma sample_primary_key: "primary_key sample_db"
  by (simp add: primary_key_def sample_defs)

lemma sample_ordinal: "30 < toordinal (2024, 1, 31) \<and> toordinal (2024, 1, 31) \<le> MAXORDINAL"
  by (simp add: toordinal_def ymd2ord_def days_before_year_def days_before_month_def
                DAYS_BEFORE_MONTH_def is_leap_def MAXORDINAL_def)

lemma sample_valid: "valid_store sample_db"
  by (simp add: valid_store_def primary_key_def valid_base_def valid_date_def valid_rating_def
                valid_tags_def days_in_month_def DAYS_IN_MONTH_def is_leap_def sample_defs)

lemma rated_valid: "valid_store rated_db"
  by (simp add: valid_store_def primary_key_def valid_base_def valid_date_def valid_rating_def
                valid_tags_def days_in_month_def DAYS_IN_MONTH_def is_leap_def rated_db_def
                rated_entry_def)

text \<open>
  A mean that is a tie in exact arithmetic: 1.075 is not a double, the nearest double lies
  below it, and \<^verbatim>\<open>round\<close> gives 1.07.
\<close>

lemma py_round_below_tie: "py_round (nearest_double (43 / 40)) 2 = nearest_double (107 / 100)"
  by code_simp

section \<open>The claims\<close>

text \<open>
  Claim C1. In a table with a unique primary key, take a key \<open>eid1\<close> whose row belongs to
  another user and a key \<open>eid2\<close> that no row has. For user \<open>uid\<close> the three operations cannot
  tell them apart: \<^verbatim>\<open>get_entry\<close> and \<^verbatim>\<open>update_entry\<close> return \<^verbatim>\<open>None\<close>, \<^verbatim>\<open>delete_entry\<close> returns
  \<^verbatim>\<open>False\<close>, and the table is left as it was.
\<close>

theorem wrong_owner_same_as_missing:
  assumes "primary_key db" and "r \<in> set db" and "id' r = eid1" and "user_id r \<noteq> uid"
    and "eid2 \<notin> set (map id' db)"
  shows "get_entry db uid eid1 = Inr None \<and> get_entry db uid eid2 = Inr None \<and>
         update_entry db now uid eid1 d = Inr (None, db) \<and>
         update_entry db now uid eid2 d = Inr (None, db) \<and>
         delete_entry db uid eid1 = Inr (False, db) \<and>
         delete_entry db uid eid2 = Inr (False, db)"
proof -
  have g1: "get_entry db uid eid1 = Inr None"
    using other_owner_no_match[OF assms(1-4)] by (rule get_entry_none)
  have "\<forall>r'\<in>set db. id' r' = eid2 \<longrightarrow> user_id r' \<noteq> uid"
    using assms(5) by auto
  then have g2: "get_entry db uid eid2 = Inr None"
    by (rule get_entry_none)
  show ?thesis
    by (simp add: g1 g2 update_entry_def delete_entry_def)
qed

text \<open>
  Claim C1 on the sample table: \<open>e3\<close> is Bob's entry, \<open>e9\<close> is no entry, the caller is
  Alice.
\<close>

theorem wrong_owner_same_as_missing_witness:
  "primary_key sample_db \<and> entry_c \<in> set sample_db \<and> id' entry_c = ''e3'' \<and>
   user_id entry_c \<noteq> ''alice'' \<and> ''e9'' \<notin> set (map id' sample_db) \<and>
   get_entry sample_db ''alice'' ''e3'' = Inr None \<and>
   get_entry sample_db ''alice'' ''e9'' = Inr None \<and>
   update_entry sample_db 500 ''alice'' ''e3'' no_fields = Inr (None, sample_db) \<and>
   update_entry sample_db 500 ''alice'' ''e9'' no_fields = Inr (None, sample_db) \<and>
   delete_entry sample_db ''alice'' ''e3'' = Inr (False, sample_db) \<and>
   delete_entry sample_db ''alice'' ''e9'' = Inr (False, sample_db)"
proof -
  have h: "primary_key sample_db" "entry_c \<in> set sample_db" "id' entry_c = ''e3''"
    "user_id entry_c \<noteq> ''alice''" "''e9'' \<notin> set (map id' sample_db)"
    by (simp_all add: primary_key_def sample_defs)
  from wrong_owner_same_as_missing[OF h, of 500 no_fields] h show ?thesis
    by (simp only: simp_thms)
qed

text \<open>
  Claim C2 fails on the code: the trend query has the lower bound
  \<^verbatim>\<open>entry_date >= thirty_days_ago\<close> and no upper bound, although its own comment announces the
  trend of the last 30 days. With the clock at 2024-01-31, Alice's entry dated 2024-02-15
  lies after the window and still contributes a point.
\<close>

theorem mood_trend_future_entry:
  "map_sum id mood_trend (get_user_stats (sample_db @ [entry_d]) (2024, 1, 31) ''alice'')
     = Inr [(''2024-01-05'', 8), (''2024-01-20'', 4), (''2024-02-15'', 5)] \<and>
   entry_date entry_d = (2024, 2, 15) \<and> user_id entry_d = ''alice'' \<and>
   \<not> entry_date entry_d \<le> (2024, 1, 31)"
  by code_simp







text \<open>
  Claim C5 as stated fails: the listing is a page. With \<open>limit = 1\<close> Alice's entry \<open>e1\<close> lies
  within the bounds and is not returned; and with a skip beyond the 64-bit range the call
  raises.
\<close>

theorem date_range_exact_counterexample:
  "get_user_entries sample_db ''alice'' 0 1 (Some (2024, 1, 1)) (Some (2024, 1, 31)) None
     = Inr [entry_b] \<and>
   entry_a \<in> set sample_db \<and> user_id entry_a = ''alice'' \<and>
   (2024, 1, 1) \<le> entry_date entry_a \<and> entry_date entry_a \<le> (2024, 1, 31) \<and>
   entry_a \<notin> set [entry_b] \<and>
   get_user_entries sample_db ''alice'' (2 ^ 63) 100 (Some (2024, 1, 1)) (Some (2024, 1, 31)) None
     = Inl OverflowError"
  by code_simp

text \<open>
  Claim C5, amended: with no tag filter, and \<open>skip\<close> and \<open>limit\<close> within the signed 64-bit
  range, the listing returns the page (\<open>skip\<close> entries dropped, then at most \<open>limit\<close> kept) of
  a sequence \<open>sel\<close> that holds exactly the user's entries within the bounds that are present
  (each inclusive, each applying on its own), in descending order of \<^verbatim>\<open>entry_date\<close>; the page is
  in descending order too, and it is the whole of \<open>sel\<close> when \<open>skip = 0\<close> and \<open>limit\<close> is not
  below the length of \<open>sel\<close>. Outside the 64-bit range the call raises \<^verbatim>\<open>OverflowError\<close>.
\<close>

theorem date_range_page:
  "(fits_int64 skip \<and> fits_int64 limit \<longrightarrow>
     (\<exists>sel. get_user_entries db uid skip limit from_date to_date None
               = Inr (sql_limit limit (sql_offset skip sel)) \<and>
            mset sel = mset (filter (\<lambda>r. user_id r = uid \<and>
                               (\<forall>d1. from_date = Some d1 \<longrightarrow> d1 \<le> entry_date r) \<and>
                               (\<forall>d2. to_date = Some d2 \<longrightarrow> entry_date r \<le> d2)) db) \<and>
            sorted_wrt (\<lambda>a b. entry_date b \<le> entry_date a) sel \<and>
            sorted_wrt (\<lambda>a b. entry_date b \<le> entry_date a) (sql_limit limit (sql_offset skip sel)) \<and>
            (skip = 0 \<and> int (length sel) \<le> limit \<longrightarrow>
               get_user_entries db uid skip limit from_date to_date None = Inr sel))) \<and>
   (\<not> (fits_int64 skip \<and> fits_int64 limit) \<longrightarrow>
      get_user_entries db uid skip limit from_date to_date None = Inl OverflowError)"
proof (intro conjI impI)
  assume fits: "fits_int64 skip \<and> fits_int64 limit"
  let ?sel = "ordered_selection db uid from_date to_date None"
  have P: "(\<lambda>r. user_id r = uid \<and> in_bounds from_date to_date (entry_date r)
                    \<and> tag_selected None (tags r))
           = (\<lambda>r. user_id r = uid \<and>
                            (\<forall>d1. from_date = Some d1 \<longrightarrow> d1 \<le> entry_date r) \<and>
                            (\<forall>d2. to_date = Some d2 \<longrightarrow> entry_date r \<le> d2))"
    by (auto simp: in_bounds_def tag_selected_def fun_eq_iff split: option.splits)
  note props = ordered_selection_props[of db uid from_date to_date None]
  have 1: "get_user_entries db uid skip limit from_date to_date None
            = Inr (sql_limit limit (sql_offset skip ?sel))"
    using fits by (simp add: get_user_entries_unfold)
  have 2: "mset ?sel = mset (filter (\<lambda>r. user_id r = uid \<and>
                            (\<forall>d1. from_date = Some d1 \<longrightarrow> d1 \<le> entry_date r) \<and>
                            (\<forall>d2. to_date = Some d2 \<longrightarrow> entry_date r \<le> d2)) db)"
    using props by (simp only: P)
  have 3: "sorted_wrt (\<lambda>a b. entry_date b \<le> entry_date a) ?sel"
    using props by simp
  have 4: "sorted_wrt (\<lambda>a b. entry_date b \<le> entry_date a) (sql_limit limit (sql_offset skip ?sel))"
    using 3 by (simp add: sql_limit_def sql_offset_def sorted_wrt_take sorted_wrt_drop)
  have 5: "skip = 0 \<and> int (length ?sel) \<le> limit \<longrightarrow>
               get_user_entries db uid skip limit from_date to_date None = Inr ?sel"
  proof
    assume h: "skip = 0 \<and> int (length ?sel) \<le> limit"
    then have "length ?sel \<le> nat limit" by linarith
    with h have "sql_limit limit (sql_offset skip ?sel) = ?sel"
      by (simp add: sql_limit_def sql_offset_def)
    then show "get_user_entries db uid skip limit from_date to_date None = Inr ?sel"
      by (simp only: 1)
  qed
  show "\<exists>sel. get_user_entries db uid skip limit from_date to_date None
               = Inr (sql_limit limit (sql_offset skip sel)) \<and>
            mset sel = mset (filter (\<lambda>r. user_id r = uid \<and>
                               (\<forall>d1. from_date = Some d1 \<longrightarrow> d1 \<le> entry_date r) \<and>
                               (\<forall>d2. to_date = Some d2 \<longrightarrow> entry_date r \<le> d2)) db) \<and>
            sorted_wrt (\<lambda>a b. entry_date b \<le> entry_date a) sel \<and>
            sorted_wrt (\<lambda>a b. entry_date b \<le> entry_date a) (sql_limit limit (sql_offset skip sel)) \<and>
            (skip = 0 \<and> int (length sel) \<le> limit \<longrightarrow>
               get_user_entries db uid skip limit from_date to_date None = Inr sel)"
    using 1 2 3 4 5 by (intro exI[of _ ?sel] conjI)
next
  assume "\<not> (fits_int64 skip \<and> fits_int64 limit)"
  then show "get_user_entries db uid skip limit from_date to_date None = Inl OverflowError"
    by (simp add: get_user_entries_unfold)
qed

text \<open>
  Claim C5, amended, on the sample table: both of Alice's entries lie within
  2024-01-05 .. 2024-01-20 (the bounds themselves) and the default page holds them.
\<close>

theorem date_range_page_witness:
  "fits_int64 0 \<and> fits_int64 100 \<and>
   (\<exists>sel. get_user_entries sample_db ''alice'' 0 100 (Some (2024, 1, 5)) (Some (2024, 1, 20)) None
            = Inr sel \<and>
          mset sel = mset [entry_a, entry_b] \<and>
          sorted_wrt (\<lambda>a b. entry_date b \<le> entry_date a) sel) \<and>
   \<not> fits_int64 (2 ^ 63) \<and>
   get_user_entries sample_db ''alice'' (2 ^ 63) 100 (Some (2024, 1, 5)) (Some (2024, 1, 20)) None
     = Inl OverflowError"
proof -
  have fits: "fits_int64 0 \<and> fits_int64 100" and nofit: "\<not> fits_int64 (2 ^ 63)"
    by (simp_all add: fits_int64_def)
  have f: "filter (\<lambda>r. user_id r = ''alice'' \<and>
                  (\<forall>d1. Some (2024, 1, 5) = Some d1 \<longrightarrow> d1 \<le> entry_date r) \<and>
                  (\<forall>d2. Some (2024, 1, 20) = Some d2 \<longrightarrow> entry_date r \<le> d2)) sample_db
           = [entry_a, entry_b]"
    by (simp add: sample_defs)
  from date_range_page[of 0 100 sample_db "''alice''" "Some (2024, 1, 5)" "Some (2024, 1, 20)"] fits
  obtain sel where sel: "mset sel = mset [entry_a, entry_b]"
      and sorted: "sorted_wrt (\<lambda>a b. entry_date b \<le> entry_date a) sel"
      and whole: "(0::int) = 0 \<and> int (length sel) \<le> 100 \<longrightarrow>
            get_user_entries sample_db ''alice'' 0 100 (Some (2024, 1, 5)) (Some (2024, 1, 20)) None
              = Inr sel"
    unfolding f by blast
  from sel have "length sel = 2"
    by (metis length_Cons list.size(3) mset_eq_length numeral_2_eq_2)
  with whole have
    "get_user_entries sample_db ''alice'' 0 100 (Some (2024, 1, 5)) (Some (2024, 1, 20)) None = Inr sel"
    by simp
  with sel sorted have part1:
    "\<exists>sel. get_user_entries sample_db ''alice'' 0 100 (Some (2024, 1, 5)) (Some (2024, 1, 20)) None
            = Inr sel \<and>
          mset sel = mset [entry_a, entry_b] \<and>
          sorted_wrt (\<lambda>a b. entry_date b \<le> entry_date a) sel"
    by blast
  from date_range_page[of "2 ^ 63" 100 sample_db "''alice''" "Some (2024, 1, 5)" "Some (2024, 1, 20)"]
       nofit
  have "get_user_entries sample_db ''alice'' (2 ^ 63) 100 (Some (2024, 1, 5)) (Some (2024, 1, 20)) None
     = Inl OverflowError"
    by blast
  with part1 fits nofit show ?thesis by blast
qed

text \<open>
  Claim C6. In a table whose rows satisfy the schema (ratings within 1..10), and for a clock
  date from 0001-01-31 on, \<^verbatim>\<open>get_user_stats\<close> returns, and each monthly average is \<^verbatim>\<open>None\<close> when
  the user has no entry dated on or after the first day of the clock's month with a value
  in that field; otherwise it is \<^verbatim>\<open>round(x, 2)\<close> of the double \<open>x\<close> nearest to the mean of
  those values. That result is the double nearest to \<open>k / 100\<close> for an integer \<open>k\<close> whose
  distance from a hundred times the mean is at most one half, up to the precision of a
  double: the mean rounded to two decimal places.
\<close>

theorem monthly_average:
  assumes "valid_store db" and "30 < toordinal current_date"
    and "toordinal current_date \<le> MAXORDINAL"
  shows "\<exists>st. get_user_stats db current_date uid = Inr st \<and>
           (let vs = spec_values_since mood_rating db uid (replace_day1 current_date)
            in average_mood_this_month st =
                 (if vs = [] then None else Some (py_round (nearest_double (mean vs)) 2)) \<and>
               (\<forall>r. average_mood_this_month st = Some r \<longrightarrow>
                  (\<exists>k. r = nearest_double (of_int k / 100) \<and>
                       \<bar>mean vs * 100 - of_int k\<bar> \<le> 1 / 2 + 100 * \<bar>mean vs\<bar> / 2 ^ 53))) \<and>
           (let vs = spec_values_since energy_level db uid (replace_day1 current_date)
            in average_energy_this_month st =
                 (if vs = [] then None else Some (py_round (nearest_double (mean vs)) 2)) \<and>
               (\<forall>r. average_energy_this_month st = Some r \<longrightarrow>
                  (\<exists>k. r = nearest_double (of_int k / 100) \<and>
                       \<bar>mean vs * 100 - of_int k\<bar> \<le> 1 / 2 + 100 * \<bar>mean vs\<bar> / 2 ^ 53)))"
proof -
  note ok = get_user_stats_ok[OF date_sub_days_ok[OF assms(2,3)]]
  note v = valid_store_values[OF assms(1)]
  let ?m = "spec_values_since mood_rating db uid (replace_day1 current_date)"
  let ?e = "spec_values_since energy_level db uid (replace_day1 current_date)"
  from ok obtain st where st: "get_user_stats db current_date uid = Inr st"
    and m: "average_mood_this_month st =
              (if ?m = [] then None else Some (py_round (nearest_double (mean ?m)) 2))"
    and e: "average_energy_this_month st =
              (if ?e = [] then None else Some (py_round (nearest_double (mean ?e)) 2))"
    by (simp add: monthly_value[OF v(1)] monthly_value[OF v(2)] Let_def del: not_None_eq)
  have rm: "\<forall>r. average_mood_this_month st = Some r \<longrightarrow>
                  (\<exists>k. r = nearest_double (of_int k / 100) \<and>
                       \<bar>mean ?m * 100 - of_int k\<bar> \<le> 1 / 2 + 100 * \<bar>mean ?m\<bar> / 2 ^ 53)"
    unfolding m using rounded_mean_hundredth[of ?m] by blast
  have re: "\<forall>r. average_energy_this_month st = Some r \<longrightarrow>
                  (\<exists>k. r = nearest_double (of_int k / 100) \<and>
                       \<bar>mean ?e * 100 - of_int k\<bar> \<le> 1 / 2 + 100 * \<bar>mean ?e\<bar> / 2 ^ 53)"
    unfolding e using rounded_mean_hundredth[of ?e] by blast
  from st m rm e re show ?thesis
    unfolding Let_def by blast
qed

text \<open>
  Claim C6 on sample tables, clock at 2024-01-31. Carol's moods 1, 2, 2 average to 5/3,
  which rounds to the double nearest to 1.67; her energies 1 and 2 average to 1.5. Bob has
  no mood rating, so his average mood is \<^verbatim>\<open>None\<close>.
\<close>

theorem monthly_average_witness:
  "valid_store rated_db \<and> valid_store sample_db \<and>
   30 < toordinal (2024, 1, 31) \<and> toordinal (2024, 1, 31) \<le> MAXORDINAL \<and>
   (\<exists>st. get_user_stats rated_db (2024, 1, 31) ''carol'' = Inr st \<and>
         average_mood_this_month st = Some (nearest_double (167 / 100)) \<and>
         average_energy_this_month st = Some (3 / 2)) \<and>
   (\<exists>st. get_user_stats sample_db (2024, 1, 31) ''bob'' = Inr st \<and>
         average_mood_this_month st = None \<and> average_energy_this_month st = Some 3)"
proof -
  have o: "30 < toordinal (2024, 1, 31)" "toordinal (2024, 1, 31) \<le> MAXORDINAL"
    using sample_ordinal by simp_all
  have a: "(let vs = spec_values_since mood_rating rated_db ''carol'' (replace_day1 (2024, 1, 31))
            in if vs = [] then None else Some (py_round (nearest_double (mean vs)) 2))
             = Some (nearest_double (167 / 100))"
          "(let vs = spec_values_since energy_level rated_db ''carol'' (replace_day1 (2024, 1, 31))
            in if vs = [] then None else Some (py_round (nearest_double (mean vs)) 2)) = Some (3 / 2)"
          "(let vs = spec_values_since mood_rating sample_db ''bob'' (replace_day1 (2024, 1, 31))
            in if vs = [] then None else Some (py_round (nearest_double (mean vs)) 2)) = None"
          "(let vs = spec_values_since energy_level sample_db ''bob'' (replace_day1 (2024, 1, 31))
            in if vs = [] then None else Some (py_round (nearest_double (mean vs)) 2)) = Some 3"
    by code_simp+
  from monthly_average[OF rated_valid o, of "''carol''"]
  obtain st where "get_user_stats rated_db (2024, 1, 31) ''carol'' = Inr st"
    "average_mood_this_month st =
       (let vs = spec_values_since mood_rating rated_db ''carol'' (replace_day1 (2024, 1, 31))
        in if vs = [] then None else Some (py_round (nearest_double (mean vs)) 2))"
    "average_energy_this_month st =
       (let vs = spec_values_since energy_level rated_db ''carol'' (replace_day1 (2024, 1, 31))
        in if vs = [] then None else Some (py_round (nearest_double (mean vs)) 2))"
    unfolding Let_def by blast
  then have c: "\<exists>st. get_user_stats rated_db (2024, 1, 31) ''carol'' = Inr st \<and>
         average_mood_this_month st = Some (nearest_double (167 / 100)) \<and>
         average_energy_this_month st = Some (3 / 2)"
    unfolding a by blast
  from monthly_average[OF sample_valid o, of "''bob''"]
  obtain st' where "get_user_stats sample_db (2024, 1, 31) ''bob'' = Inr st'"
    "average_mood_this_month st' =
       (let vs = spec_values_since mood_rating sample_db ''bob'' (replace_day1 (2024, 1, 31))
        in if vs = [] then None else Some (py_round (nearest_double (mean vs)) 2))"
    "average_energy_this_month st' =
       (let vs = spec_values_since energy_level sample_db ''bob'' (replace_day1 (2024, 1, 31))
        in if vs = [] then None else Some (py_round (nearest_double (mean vs)) 2))"
    unfolding Let_def by blast
  then have b: "\<exists>st. get_user_stats sample_db (2024, 1, 31) ''bob'' = Inr st \<and>
         average_mood_this_month st = None \<and> average_energy_this_month st = Some 3"
    unfolding a by blast
  from c b rated_valid sample_valid o show ?thesis by blast
qed

text \<open>
  Claim C7 fails on the code: the filter text is pasted into the \<^verbatim>\<open>LIKE\<close> pattern unescaped,
  so \<open>_\<close> and \<open>%\<close> in it act as wildcards. The filter \<open>a_c\<close> selects the entry tagged \<open>abc\<close>,
  whose tags do not contain \<open>a_c\<close>.
\<close>

theorem tag_filter_wildcard:
  "get_user_entries [entry_d] ''alice'' 0 100 None None (Some ''a_c'') = Inr [entry_d] \<and>
   tags entry_d = Some ''abc'' \<and> \<not> substring ''a_c'' ''abc''"
  by code_simp

text \<open>
  Claim C8. When the drawn identifier is fresh, \<^verbatim>\<open>create_entry\<close> succeeds; the returned entry
  has the creating user as owner and the request's fields, and \<^verbatim>\<open>get_entry\<close> on the resulting
  table with that owner and the returned key returns the same entry.
\<close>

theorem create_then_get:
  assumes "new_id \<notin> set (map id' db)"
  shows "\<exists>e db'. create_entry db new_id now uid entry_data = Inr (e, db') \<and>
           user_id e = uid \<and> id' e = new_id \<and>
           JournalEntryBase.truncate e = entry_data \<and>
           get_entry db' uid (id' e) = Inr (Some e)"
proof -
  have "filter (\<lambda>r. id' r = new_id \<and> user_id r = uid) db = []"
    using assms by (auto simp: filter_empty_conv)
  then show ?thesis
    using assms by (simp add: create_entry_def get_entry_def Let_def JournalEntryBase.truncate_def)
qed

text \<open>
  Claim C8 on the sample table: Alice creates an entry under the fresh key \<open>e5\<close>.
\<close>

theorem create_then_get_witness:
  "''e5'' \<notin> set (map id' sample_db) \<and>
   (\<exists>e db'. create_entry sample_db ''e5'' 500 ''alice'' sample_create = Inr (e, db') \<and>
            user_id e = ''alice'' \<and> id' e = ''e5'' \<and>
            JournalEntryBase.truncate e = sample_create \<and>
            get_entry db' ''alice'' (id' e) = Inr (Some e))"
proof -
  have h: "''e5'' \<notin> set (map id' sample_db)"
    by (simp add: sample_defs)
  from create_then_get[OF h, of 500 "''alice''" sample_create] h show ?thesis
    by (simp only: simp_thms)
qed

text \<open>
  Claim C9. \<^verbatim>\<open>delete_entry\<close> returns \<^verbatim>\<open>False\<close> (a value, not an exception) and leaves the table
  as it was when no row has both the key and the owner; whenever it returns \<^verbatim>\<open>True\<close> the key
  is gone from the table and \<^verbatim>\<open>get_entry\<close> then returns \<^verbatim>\<open>None\<close>; and it does return \<^verbatim>\<open>True\<close>
  for a row of the caller's in a table with a unique primary key.
\<close>

theorem delete_then_get:
  "((\<forall>r\<in>set db. id' r = eid \<longrightarrow> user_id r \<noteq> uid) \<longrightarrow> delete_entry db uid eid = Inr (False, db)) \<and>
   (\<forall>db'. delete_entry db uid eid = Inr (True, db') \<longrightarrow>
       get_entry db' uid eid = Inr None \<and> eid \<notin> set (map id' db')) \<and>
   (primary_key db \<longrightarrow> (\<forall>r\<in>set db. id' r = eid \<and> user_id r = uid \<longrightarrow>
       delete_entry db uid eid = Inr (True, filter (\<lambda>x. id' x \<noteq> eid) db)))"
proof (intro conjI allI impI ballI)
  assume "\<forall>r\<in>set db. id' r = eid \<longrightarrow> user_id r \<noteq> uid"
  then show "delete_entry db uid eid = Inr (False, db)"
    by (simp add: delete_entry_def get_entry_none)
next
  fix db' assume del: "delete_entry db uid eid = Inr (True, db')"
  then obtain e where g: "get_entry db uid eid = Inr (Some e)" 
    and db': "db' = filter (\<lambda>r. id' r \<noteq> id' e) db"
    by (auto simp: delete_entry_def split: sum.splits option.splits)
  from get_entry_Some_props[OF g] have ide: "id' e = eid" by simp
  have "\<forall>r\<in>set db'. id' r = eid \<longrightarrow> user_id r \<noteq> uid"
    by (simp add: db' ide)
  then show "get_entry db' uid eid = Inr None" by (rule get_entry_none)
  show "eid \<notin> set (map id' db')" by (auto simp: db' ide)
next
  fix r assume pk: "primary_key db" and r: "r \<in> set db" and "id' r = eid \<and> user_id r = uid"
  then show "delete_entry db uid eid = Inr (True, filter (\<lambda>x. id' x \<noteq> eid) db)"
    using get_entry_owned[OF pk r] by (auto simp: delete_entry_def)
qed

text \<open>
  Claim C9 on the sample table: Alice deletes her entry \<open>e1\<close>, and fails to delete Bob's
  \<open>e3\<close>.
\<close>

theorem delete_then_get_witness:
  "delete_entry sample_db ''alice'' ''e1'' = Inr (True, [entry_b, entry_c]) \<and>
   get_entry [entry_b, entry_c] ''alice'' ''e1'' = Inr None \<and>
   ''e1'' \<notin> set (map id' [entry_b, entry_c]) \<and>
   delete_entry sample_db ''alice'' ''e3'' = Inr (False, sample_db)"
proof -
  have d: "delete_entry sample_db ''alice'' ''e1'' = Inr (True, [entry_b, entry_c])"
    by (simp add: delete_entry_def sample_get_a) (simp add: sample_defs)
  have n: "\<forall>r\<in>set sample_db. id' r = ''e3'' \<longrightarrow> user_id r \<noteq> ''alice''"
    by (simp add: sample_defs)
  from delete_then_get[of sample_db "''e1''" "''alice''"] d
  have "get_entry [entry_b, entry_c] ''alice'' ''e1'' = Inr None \<and>
        ''e1'' \<notin> set (map id' [entry_b, entry_c])"
    by blast
  moreover from delete_then_get[of sample_db "''e3''" "''alice''"] n
  have "delete_entry sample_db ''alice'' ''e3'' = Inr (False, sample_db)"
    by blast
  ultimately show ?thesis using d by (simp only: simp_thms)
qed

text \<open>
  Claim C10. An update that supplies no field succeeds on an entry of the caller's: it
  returns and stores the entry with every field as before except \<^verbatim>\<open>updated_at\<close>, which is the
  clock reading.
\<close>

theorem empty_update_succeeds:
  assumes "primary_key db" and "get_entry db uid eid = Inr (Some e)"
  shows "update_entry db now uid eid no_fields
           = Inr (Some (e\<lparr>updated_at := now\<rparr>), write_row (e\<lparr>updated_at := now\<rparr>) db) \<and>
         get_entry (write_row (e\<lparr>updated_at := now\<rparr>) db) uid eid
           = Inr (Some (e\<lparr>updated_at := now\<rparr>))"
proof -
  have sf: "set_fields no_fields e = e"
    by (simp add: set_fields_def no_fields_def setattr_required_def setattr_nullable_def)
  have nv: "\<not> null_violation no_fields"
    by (simp add: null_violation_def no_fields_def)
  note p = get_entry_Some_props[OF assms(2)]
  have "get_entry (write_row (e\<lparr>updated_at := now\<rparr>) db) (user_id (e\<lparr>updated_at := now\<rparr>)) (id' e)
           = Inr (Some (e\<lparr>updated_at := now\<rparr>))"
    using p by (intro get_after_write[OF assms(1)]) simp_all
  then show ?thesis
    using p by (simp add: update_entry_def assms(2) sf nv Let_def)
qed

text \<open>
  Claim C10 on the sample table: Alice sends the empty update for \<open>e1\<close> at time 500.
\<close>

theorem empty_update_succeeds_witness:
  "primary_key sample_db \<and> get_entry sample_db ''alice'' ''e1'' = Inr (Some entry_a) \<and>
   update_entry sample_db 500 ''alice'' ''e1'' no_fields
     = Inr (Some (entry_a\<lparr>updated_at := 500\<rparr>), write_row (entry_a\<lparr>updated_at := 500\<rparr>) sample_db) \<and>
   get_entry (write_row (entry_a\<lparr>updated_at := 500\<rparr>) sample_db) ''alice'' ''e1''
     = Inr (Some (entry_a\<lparr>updated_at := 500\<rparr>))"
  using empty_update_succeeds[OF sample_primary_key sample_get_a, of 500]
        sample_primary_key sample_get_a
  by (simp only: simp_thms)

end
